theory Spec2Isabelle
  imports Main "HOL-Library.AList"
begin

section \<open>Python text\<close>

text \<open>
  A Python \<open>str\<close> is a sequence of Unicode code points. Page contents, questions, prompts
  and messages are modelled as lists of code points (\<open>nat\<close>), so that \<open>'\xa0'\<close> is the
  single element 160 and \<open>'\n'\<close> is 10. File paths, file names and hex digests are ASCII
  identifiers and are kept as Isabelle strings; \<open>ustr\<close> turns such a literal into text.
\<close>

type_synonym pystr = "nat list"

definition ustr :: "string \<Rightarrow> pystr" where
  "ustr s = map of_char s"

text \<open>
  \<open>str.isspace\<close> for one code point: the characters that \<open>str.strip()\<close> without argument
  removes (CPython's \<open>_PyUnicode_IsWhitespace\<close>).
\<close>

definition is_space :: "nat \<Rightarrow> bool" where
  "is_space c \<longleftrightarrow>
     (9 \<le> c \<and> c \<le> 13) \<or> (28 \<le> c \<and> c \<le> 32) \<or> c = 133 \<or> c = 160 \<or> c = 5760 \<or>
     (8192 \<le> c \<and> c \<le> 8202) \<or> c = 8232 \<or> c = 8233 \<or> c = 8239 \<or> c = 8287 \<or> c = 12288"

text \<open>\<open>text.strip()\<close>\<close>

definition strip :: "pystr \<Rightarrow> pystr" where
  "strip s = rev (dropWhile is_space (rev (dropWhile is_space s)))"

text \<open>\<open>text.replace(old, new)\<close> for one-character \<open>old\<close> and \<open>new\<close>.\<close>

definition str_replace :: "nat \<Rightarrow> nat \<Rightarrow> pystr \<Rightarrow> pystr" where
  "str_replace old new s = map (\<lambda>c. if c = old then new else c) s"

text \<open>
  \<open>re.sub(r'\n{3,}', '\n\n', text)\<close>: the scan goes left to right; at each position the
  greedy quantifier takes every line break that follows, the match succeeds when there are
  at least three of them and is replaced by two; otherwise the character is copied and
  the scan moves one position on.
\<close>

function sub_newlines :: "pystr \<Rightarrow> pystr" where
  "sub_newlines [] = []"
| "sub_newlines (c # cs) =
     (let n = length (takeWhile (\<lambda>x. x = 10) (c # cs)) in
      if 3 \<le> n then [10, 10] @ sub_newlines (drop n (c # cs))
      else c # sub_newlines cs)"
  by pat_completeness auto
termination
  by (relation "measure length") auto

text \<open>\<open>DocumentProcessor.clean_text\<close> (ingest_manuals.py, lines 95-102).\<close>

definition clean_text :: "pystr \<Rightarrow> pystr" where
  "clean_text text = strip (str_replace 160 32 (sub_newlines text))"

subsection \<open>The cleaning operation as the specification words it\<close>

text \<open>
  The specification speaks of runs of consecutive line breaks. \<open>runs\<close> cuts a text into
  its maximal runs of one repeated character, and \<open>squeeze_run\<close> shortens a run of three
  or more line breaks to exactly two and leaves every other run as it is.
\<close>

function runs :: "'a list \<Rightarrow> 'a list list" where
  "runs [] = []"
| "runs (x # xs) = (x # takeWhile (\<lambda>y. y = x) xs) # runs (dropWhile (\<lambda>y. y = x) xs)"
  by pat_completeness auto
termination
  by (relation "measure length") (auto simp: length_dropWhile_le less_Suc_eq_le)

definition squeeze_run :: "pystr \<Rightarrow> pystr" where
  "squeeze_run r = (if 3 \<le> length r \<and> set r = {10} then [10, 10] else r)"

definition spec_clean_text :: "pystr \<Rightarrow> pystr" where
  "spec_clean_text text = strip (str_replace 160 32 (concat (map squeeze_run (runs text))))"

section \<open>Exceptions and documents\<close>

text \<open>
  Exceptions are values. Every class below is a subclass of Python's \<open>Exception\<close>, so an
  \<open>except Exception\<close> handler catches each of them; \<open>str_of\<close> is \<open>str(e)\<close>.
\<close>

datatype exn_class =
  ValueError | AttributeError | JSONDecodeError | OSError | FileNotFoundError
  | UnicodeDecodeError | UnicodeEncodeError | ImportError | RuntimeError

datatype py_exception = PyException (class_of: exn_class) (str_of: pystr)

text \<open>A langchain \<open>Document\<close>: the text and a metadata dictionary.\<close>

datatype meta_value = MStr string | MInt int

record document =
  page_content :: pystr
  metadata :: "(string \<times> meta_value) list"

section \<open>Ingestion (ingest_manuals.py)\<close>

text \<open>\<open>IngestionConfig\<close> with its defaults (lines 27-36).\<close>

record ingestion_config =
  source_dir :: string
  persist_dir :: string
  embedding_model :: string
  chunk_size :: int
  chunk_overlap :: int
  registry_file :: string
  separators :: "pystr list"

definition IngestionConfig :: ingestion_config where
  "IngestionConfig =
     \<lparr>source_dir = ''bike_manuals'',
      persist_dir = ''./chroma_db'',
      embedding_model = ''sentence-transformers/all-mpnet-base-v2'',
      chunk_size = 800,
      chunk_overlap = 200,
      registry_file = ''processed_files.json'',
      separators = [[10, 10], [10], [32], []]\<rparr>"

text \<open>
  A source file as one run sees it: the path that \<open>glob\<close> returned, and what
  \<open>open(file_path, 'rb')\<close> followed by \<open>f.read()\<close> delivers: the bytes, or the exception
  that \<open>open\<close> raises (\<open>glob\<close> also lists a dangling symbolic link, a directory whose
  name ends in \<open>.pdf\<close> and a file without read permission).
\<close>

record source_file =
  path :: string
  read_bytes :: "py_exception + string"

text \<open>\<open>file_path.name\<close> and \<open>os.path.basename\<close>: the part after the last separator.\<close>

definition path_name :: "string \<Rightarrow> string" where
  "path_name p = rev (takeWhile (\<lambda>c. c \<noteq> CHR ''/'') (rev p))"

text \<open>
  The external collaborators of the ingestion run, as parameters: the MD5 digest of
  \<open>hashlib\<close>, \<open>PyPDFLoader(file_path).load()\<close> (which may raise), the
  \<open>split_documents\<close> method of the \<open>RecursiveCharacterTextSplitter\<close> built from chunk
  size, overlap and separators, and the Chroma store behind \<open>add_documents\<close> and
  \<open>similarity_search\<close> (which may raise; a failing insertion may still have changed the
  store). The two constructors in \<open>process_file\<close> are taken not to raise: the loader's
  for a file that \<open>glob\<close> has just listed, the splitter's for the configured sizes.
\<close>

record 'vs ingest_env =
  md5_hexdigest :: "string \<Rightarrow> string"
  pdf_load :: "source_file \<Rightarrow> py_exception + document list"
  split_documents :: "int \<Rightarrow> int \<Rightarrow> pystr list \<Rightarrow> document list \<Rightarrow> document list"
  vs_add_documents :: "'vs \<Rightarrow> document list \<Rightarrow> py_exception option \<times> 'vs"
  vs_similarity_search :: "'vs \<Rightarrow> pystr \<Rightarrow> nat \<Rightarrow> py_exception + document list"

text \<open>The lines that the run writes to the logger, one constructor per message.\<close>

datatype log_entry =
  Info_Starting
  | Error_SourceDirMissing string
  | Info_Found nat string
  | Info_Skipping string
  | Info_Processing string
  | Error_FailedToLoad string py_exception
  | Info_Added nat string
  | Warning_NoValidContent string
  | Info_CompleteTotal nat
  | Info_CompleteNone
  | Info_ValidationRule
  | Info_ValidationRunning
  | Info_ValidationQuery pystr
  | Info_ValidationSuccess
  | Info_TopResultSource meta_value
  | Info_TopResultPreview pystr
  | Warning_ValidationEmpty

text \<open>
  The calls that reach the store and the registry, in the order they are made:
  \<open>vectorstore.add_documents(docs)\<close> with its outcome, and \<open>mark_processed\<close>.
\<close>

datatype db_call =
  AddDocuments "document list" "py_exception option"
  | MarkProcessed string string

text \<open>
  The state that a run reads and changes: the \<open>VectorDatabase\<close> object (store, registry
  in memory), the registry file (\<open>None\<close> while it does not exist, \<open>Some reg\<close> when it holds
  what \<open>_save_registry\<close> wrote for the dictionary \<open>reg\<close>), the trace of calls and the log.
\<close>

record 'vs pipeline_state =
  vectorstore :: 'vs
  registry :: "string \<rightharpoonup> string"
  registry_on_disk :: "(string \<rightharpoonup> string) option"
  calls :: "db_call list"
  log :: "log_entry list"

definition logger :: "log_entry \<Rightarrow> 'vs pipeline_state \<Rightarrow> 'vs pipeline_state" where
  "logger entry st = st\<lparr>log := log st @ [entry]\<rparr>"

definition logger_all :: "log_entry list \<Rightarrow> 'vs pipeline_state \<Rightarrow> 'vs pipeline_state" where
  "logger_all entries st = st\<lparr>log := log st @ entries\<rparr>"

text \<open>
  \<open>DocumentProcessor.calculate_file_hash\<close> (lines 42-48): an exception of \<open>open\<close> or
  \<open>read\<close> is not caught here.
\<close>

definition calculate_file_hash :: "'vs ingest_env \<Rightarrow> source_file \<Rightarrow> py_exception + string" where
  "calculate_file_hash env f =
     (case read_bytes f of
        Inl e \<Rightarrow> Inl e
      | Inr buf \<Rightarrow> Inr (md5_hexdigest env buf))"

text \<open>
  \<open>DocumentProcessor.extract_metadata\<close> (lines 50-63). \<open>re.split(r'[_\-\s]', filename)[0]\<close>
  is the part of the name before the first underscore, hyphen or whitespace.
\<close>

definition extract_metadata :: "string \<Rightarrow> (string \<times> meta_value) list" where
  "extract_metadata file_path =
     (let filename = path_name file_path;
          bike_model = takeWhile (\<lambda>c. c \<noteq> CHR ''_'' \<and> c \<noteq> CHR ''-'' \<and> \<not> is_space (of_char c)) filename
      in [(''source'', MStr filename), (''bike_model'', MStr bike_model), (''file_path'', MStr file_path)])"

text \<open>\<open>dict.update\<close>\<close>

definition dict_update :: "('k \<times> 'v) list \<Rightarrow> ('k \<times> 'v) list \<Rightarrow> ('k \<times> 'v) list" where
  "dict_update d new = fold (\<lambda>(k, v). AList.update k v) new d"

text \<open>The loop over the loaded pages in \<open>process_file\<close> (lines 74-85).\<close>

fun clean_pages :: "string \<Rightarrow> document list \<Rightarrow> document list" where
  "clean_pages file_path [] = []"
| "clean_pages file_path (doc # raw_docs) =
     (if page_content doc = [] \<or> length (strip (page_content doc)) < 50
      then clean_pages file_path raw_docs
      else doc\<lparr>metadata := dict_update (metadata doc) (extract_metadata file_path),
               page_content := clean_text (page_content doc)\<rparr>
           # clean_pages file_path raw_docs)"

text \<open>
  \<open>DocumentProcessor.process_file\<close> (lines 65-93): the chunks, and what it logs.
\<close>

definition process_file ::
  "'vs ingest_env \<Rightarrow> ingestion_config \<Rightarrow> source_file \<Rightarrow> document list \<times> log_entry list" where
  "process_file env cfg f =
     (case pdf_load env f of
        Inl e \<Rightarrow> ([], [Error_FailedToLoad (path f) e])
      | Inr raw_docs \<Rightarrow>
          (split_documents env (chunk_size cfg) (chunk_overlap cfg) (separators cfg)
             (clean_pages (path f) raw_docs), []))"

text \<open>
  \<open>VectorDatabase._load_registry\<close> (lines 114-122). What the file system and the JSON
  parser do is a parameter: whether the path exists, what \<open>open(path, 'r')\<close> followed by
  \<open>f.read()\<close> delivers (the text, or an exception such as a permission error or a
  decoding error), and what \<open>json.loads\<close> makes of a text (a dictionary, as the return
  annotation \<open>Dict[str, str]\<close> has it, or \<open>JSONDecodeError\<close>). The \<open>try\<close> block spans both
  the opening and the parsing; its handler catches \<open>json.JSONDecodeError\<close> only.
\<close>

record registry_io =
  path_exists :: "string \<Rightarrow> bool"
  read_text :: "string \<Rightarrow> py_exception + pystr"
  json_loads :: "pystr \<Rightarrow> py_exception + (string \<rightharpoonup> string)"

definition load_registry ::
  "registry_io \<Rightarrow> ingestion_config \<Rightarrow> py_exception + (string \<rightharpoonup> string)" where
  "load_registry io cfg =
     (if path_exists io (registry_file cfg)
      then (case (case read_text io (registry_file cfg) of
                    Inl e \<Rightarrow> Inl e
                  | Inr text \<Rightarrow> json_loads io text) of
              Inr reg \<Rightarrow> Inr reg
            | Inl e \<Rightarrow> (if class_of e = JSONDecodeError then Inr Map.empty else Inl e))
      else Inr Map.empty)"

text \<open>\<open>VectorDatabase.is_processed\<close> (lines 129-131).\<close>

definition is_processed :: "(string \<rightharpoonup> string) \<Rightarrow> string \<Rightarrow> string \<Rightarrow> bool" where
  "is_processed reg filename file_hash \<longleftrightarrow> reg filename = Some file_hash"

text \<open>
  \<open>VectorDatabase.mark_processed\<close> with \<open>_save_registry\<close> (lines 124-127, 133-136): the
  entry is set in memory and the whole registry is written through to the file; the
  write is taken to succeed.
\<close>

definition mark_processed :: "string \<Rightarrow> string \<Rightarrow> 'vs pipeline_state \<Rightarrow> 'vs pipeline_state" where
  "mark_processed filename file_hash st =
     st\<lparr>registry := (registry st)(filename \<mapsto> file_hash),
        registry_on_disk := Some ((registry st)(filename \<mapsto> file_hash)),
        calls := calls st @ [MarkProcessed filename file_hash]\<rparr>"

text \<open>
  \<open>VectorDatabase.add_documents\<close> (lines 138-144): nothing is sent for an empty list; an
  exception of the store propagates.
\<close>

definition add_documents ::
  "'vs ingest_env \<Rightarrow> document list \<Rightarrow> 'vs pipeline_state \<Rightarrow> py_exception option \<times> 'vs pipeline_state" where
  "add_documents env documents st =
     (if documents = [] then (None, st)
      else (case vs_add_documents env (vectorstore st) documents of
              (r, vs') \<Rightarrow> (r, st\<lparr>vectorstore := vs', calls := calls st @ [AddDocuments documents r]\<rparr>)))"

text \<open>
  The body of the loop of \<open>RAGPipeline.run\<close> for one file (lines 169-188), with the
  running value of \<open>new_docs_count\<close>. \<open>Some e\<close>: the exception \<open>e\<close> leaves the loop; the
  call of \<open>calculate_file_hash\<close> at line 171 and the call of \<open>add_documents\<close> at line 183
  are inside no \<open>try\<close>.
\<close>

definition ingest_file ::
  "'vs ingest_env \<Rightarrow> ingestion_config \<Rightarrow> 'vs pipeline_state \<Rightarrow> nat \<Rightarrow> source_file
   \<Rightarrow> py_exception option \<times> 'vs pipeline_state \<times> nat" where
  "ingest_file env cfg st new_docs_count f =
     (case calculate_file_hash env f of
        Inl e \<Rightarrow> (Some e, st, new_docs_count)
      | Inr file_hash \<Rightarrow>
          (let filename = path_name (path f)
           in if is_processed (registry st) filename file_hash
              then (None, logger (Info_Skipping filename) st, new_docs_count)
              else
                (case process_file env cfg f of
                   (docs, logged) \<Rightarrow>
                     (let st1 = logger_all logged (logger (Info_Processing filename) st)
                      in if docs \<noteq> []
                         then (case add_documents env docs st1 of
                                 (Some e, st2) \<Rightarrow> (Some e, st2, new_docs_count)
                               | (None, st2) \<Rightarrow>
                                   (None,
                                    logger (Info_Added (length docs) filename)
                                      (mark_processed filename file_hash st2),
                                    new_docs_count + length docs))
                         else (None, logger (Warning_NoValidContent filename) st1, new_docs_count)))))"

text \<open>The loop of \<open>RAGPipeline.run\<close> (lines 166-188).\<close>

fun run_loop ::
  "'vs ingest_env \<Rightarrow> ingestion_config \<Rightarrow> 'vs pipeline_state \<Rightarrow> nat \<Rightarrow> source_file list
   \<Rightarrow> py_exception option \<times> 'vs pipeline_state \<times> nat" where
  "run_loop env cfg st new_docs_count [] = (None, st, new_docs_count)"
| "run_loop env cfg st new_docs_count (f # pdf_files) =
     (case ingest_file env cfg st new_docs_count f of
        (Some e, st', n) \<Rightarrow> (Some e, st', n)
      | (None, st', n) \<Rightarrow> run_loop env cfg st' n pdf_files)"

text \<open>\<open>RAGPipeline.validate\<close> (lines 198-212).\<close>

definition test_query :: pystr where
  "test_query = ustr ''How to adjust chain slack?''"

definition dict_get :: "('k \<times> 'v) list \<Rightarrow> 'k \<Rightarrow> 'v \<Rightarrow> 'v" where
  "dict_get d k dflt = (case map_of d k of None \<Rightarrow> dflt | Some v \<Rightarrow> v)"

definition validate :: "'vs ingest_env \<Rightarrow> 'vs pipeline_state \<Rightarrow> py_exception option \<times> 'vs pipeline_state" where
  "validate env st =
     (let st1 = logger (Info_ValidationQuery test_query)
                  (logger Info_ValidationRunning (logger Info_ValidationRule st))
      in case vs_similarity_search env (vectorstore st1) test_query 3 of
           Inl e \<Rightarrow> (Some e, st1)
         | Inr [] \<Rightarrow> (None, logger Warning_ValidationEmpty st1)
         | Inr (top_doc # _) \<Rightarrow>
             (None,
              logger (Info_TopResultPreview (str_replace 10 32 (take 200 (page_content top_doc))))
                (logger (Info_TopResultSource (dict_get (metadata top_doc) ''source'' (MStr ''Unknown'')))
                   (logger Info_ValidationSuccess st1))))"

text \<open>
  \<open>RAGPipeline.run\<close> (lines 156-196). The second argument of the run is what the file
  system shows: \<open>None\<close> when the source directory does not exist, otherwise the files that
  \<open>glob("**/*.pdf")\<close> lists, in its order.
\<close>

definition run ::
  "'vs ingest_env \<Rightarrow> ingestion_config \<Rightarrow> source_file list option \<Rightarrow> 'vs pipeline_state
   \<Rightarrow> py_exception option \<times> 'vs pipeline_state" where
  "run env cfg corpus st =
     (let st0 = logger Info_Starting st
      in case corpus of
           None \<Rightarrow> (None, logger (Error_SourceDirMissing (source_dir cfg)) st0)
         | Some pdf_files \<Rightarrow>
             (case run_loop env cfg (logger (Info_Found (length pdf_files) (source_dir cfg)) st0) 0 pdf_files of
                (Some e, st1, n) \<Rightarrow> (Some e, st1)
              | (None, st1, n) \<Rightarrow>
                  validate env
                    (logger (if 0 < n then Info_CompleteTotal n else Info_CompleteNone) st1)))"

text \<open>
  \<open>RAGPipeline()\<close> in a new process (lines 105-112 and 151-154) over what an earlier
  process left: the store is opened from its directory and the registry is loaded from
  the registry file, \<open>json.load\<close> of what \<open>json.dump\<close> wrote being taken to return the
  dictionary. Trace and log are carried along, so that they show both processes.
\<close>

definition new_process :: "'vs pipeline_state \<Rightarrow> 'vs pipeline_state" where
  "new_process st =
     st\<lparr>registry := (case registry_on_disk st of None \<Rightarrow> Map.empty | Some reg \<Rightarrow> reg)\<rparr>"

section \<open>A test double for the collaborators, and small corpora\<close>

text \<open>
  Concrete collaborators for evaluating the run on explicit inputs. The digest table
  holds the MD5 hex digests of the file contents used below, as \<open>hashlib\<close> computes them.
  The loader raises on a file it cannot read and on the truncated file, and otherwise
  returns one page whose text is the file's content, the splitter returns each
  cleaned page as one chunk (every page below is shorter than the chunk size), the store
  is the list of the documents added so far and never fails.
\<close>

definition road_text :: string where
  "road_text = ''Chain slack adjustment: loosen the axle nut, then turn both adjusters evenly.''"

definition city_text :: string where
  "city_text = ''Tyre pressure: inflate the front tyre to 2.0 bar and the rear tyre to 2.2 bar.''"

definition trail_text :: string where
  "trail_text = ''Brake pads: replace the pads when the wear indicator groove is no longer visible.''"

definition trail_text_mutated :: string where
  "trail_text_mutated = ''Brake pads: replace the pads when the wear indicator groove is no longer visiblE.''"

definition cover_text :: string where
  "cover_text = ''Cover page''"

definition corrupt_text :: string where
  "corrupt_text = ''%PDF-1.7 truncated''"

definition double_md5 :: "string \<Rightarrow> string" where
  "double_md5 bytes =
     (if bytes = road_text then ''7ca3b8ba27f2a912d47b8cb7565fea73''
      else if bytes = city_text then ''3e859fa52ccc1420ff84ba386b1b1a34''
      else if bytes = trail_text then ''3086a723e786c5434038abcc05eb41b6''
      else if bytes = trail_text_mutated then ''37fd1cee59963f568a0909b931540c9c''
      else if bytes = cover_text then ''414ad3f25d7199cd9d8ecc993267da4e''
      else if bytes = corrupt_text then ''4826a64c3ce8e040d337ffc483a8909b''
      else ''d41d8cd98f00b204e9800998ecf8427e'')"

definition double_load :: "source_file \<Rightarrow> py_exception + document list" where
  "double_load f =
     (case read_bytes f of
        Inl e \<Rightarrow> Inl e
      | Inr bytes \<Rightarrow>
          (if bytes = corrupt_text then Inl (PyException RuntimeError (ustr ''EOF marker not found''))
           else Inr [\<lparr>page_content = ustr bytes,
                      metadata = [(''source'', MStr (path f)), (''page'', MInt 0)]\<rparr>]))"

definition double_env :: "(document list) ingest_env" where
  "double_env =
     \<lparr>md5_hexdigest = double_md5,
      pdf_load = double_load,
      split_documents = (\<lambda>size overlap seps docs. docs),
      vs_add_documents = (\<lambda>vs docs. (None, vs @ docs)),
      vs_similarity_search = (\<lambda>vs query k. Inr (take k vs))\<rparr>"

definition fresh_state :: "(document list) pipeline_state" where
  "fresh_state =
     \<lparr>vectorstore = [], registry = Map.empty, registry_on_disk = None, calls = [], log = []\<rparr>"

definition road_manual :: source_file where
  "road_manual = \<lparr>path = ''bike_manuals/road/manual.pdf'', read_bytes = Inr road_text\<rparr>"

definition city_manual :: source_file where
  "city_manual = \<lparr>path = ''bike_manuals/city/manual.pdf'', read_bytes = Inr city_text\<rparr>"

definition trail_manual :: source_file where
  "trail_manual = \<lparr>path = ''bike_manuals/trail.pdf'', read_bytes = Inr trail_text\<rparr>"

definition trail_manual_mutated :: source_file where
  "trail_manual_mutated = \<lparr>path = ''bike_manuals/trail.pdf'', read_bytes = Inr trail_text_mutated\<rparr>"

definition corrupt_manual :: source_file where
  "corrupt_manual = \<lparr>path = ''bike_manuals/corrupt.pdf'', read_bytes = Inr corrupt_text\<rparr>"

text \<open>A dangling symbolic link: \<open>glob\<close> lists it, \<open>open\<close> raises on it.\<close>

definition broken_link :: source_file where
  "broken_link =
     \<lparr>path = ''bike_manuals/broken.pdf'',
      read_bytes = Inl (PyException FileNotFoundError
                     (ustr ''[Errno 2] No such file or directory: '' @ [39] @
                      ustr ''bike_manuals/broken.pdf'' @ [39]))\<rparr>"

definition cover_only :: source_file where
  "cover_only = \<lparr>path = ''bike_manuals/cover.pdf'', read_bytes = Inr cover_text\<rparr>"

text \<open>The number of \<open>vectorstore.add_documents\<close> calls in a trace.\<close>

fun insertions :: "db_call list \<Rightarrow> nat" where
  "insertions [] = 0"
| "insertions (AddDocuments docs r # cs) = Suc (insertions cs)"
| "insertions (MarkProcessed filename file_hash # cs) = insertions cs"

text \<open>
  Reading a log: the files a run announced as processed (\<open>Processing '...'\<close>), and the
  entries that a later state added to the log of an earlier one.
\<close>

fun processed_names :: "log_entry list \<Rightarrow> string list" where
  "processed_names [] = []"
| "processed_names (Info_Processing filename # es) = filename # processed_names es"
| "processed_names (e # es) = processed_names es"

definition new_log :: "'vs pipeline_state \<Rightarrow> 'vs pipeline_state \<Rightarrow> log_entry list" where
  "new_log before after = drop (length (log before)) (log after)"

text \<open>
  A file is registered when it can be read and the registry holds its digest under its
  name; it is settled when it is registered or can be read and has no chunks.
\<close>

definition registered :: "'vs ingest_env \<Rightarrow> (string \<rightharpoonup> string) \<Rightarrow> source_file \<Rightarrow> bool" where
  "registered env reg f \<longleftrightarrow>
     (case calculate_file_hash env f of
        Inl e \<Rightarrow> False
      | Inr file_hash \<Rightarrow> is_processed reg (path_name (path f)) file_hash)"

definition settled ::
  "'vs ingest_env \<Rightarrow> ingestion_config \<Rightarrow> (string \<rightharpoonup> string) \<Rightarrow> source_file \<Rightarrow> bool" where
  "settled env cfg reg f \<longleftrightarrow>
     (case calculate_file_hash env f of
        Inl e \<Rightarrow> False
      | Inr file_hash \<Rightarrow>
          is_processed reg (path_name (path f)) file_hash \<or> fst (process_file env cfg f) = [])"

text \<open>A state as a process has it at its start: the registry is what the file holds.\<close>

definition freshly_loaded :: "'vs pipeline_state \<Rightarrow> bool" where
  "freshly_loaded st \<longleftrightarrow>
     registry st = (case registry_on_disk st of None \<Rightarrow> Map.empty | Some reg \<Rightarrow> reg)"

text \<open>Two states that differ at most in their logs.\<close>

definition same_db :: "'vs pipeline_state \<Rightarrow> 'vs pipeline_state \<Rightarrow> bool" where
  "same_db st st' \<longleftrightarrow>
     vectorstore st = vectorstore st' \<and> registry st = registry st' \<and>
     registry_on_disk st = registry_on_disk st' \<and> calls st = calls st'"

text \<open>
  Reading a trace of calls. \<open>marks_follow_adds P\<close> holds when every \<open>mark_processed\<close>
  call comes directly after an \<open>add_documents\<close> call that returned without an exception,
  the two being related by \<open>P\<close>; \<open>chunks_of_corpus\<close> relates the chunks of a file of the
  corpus to its name and digest.
\<close>

fun marks_follow_adds :: "(document list \<Rightarrow> string \<Rightarrow> string \<Rightarrow> bool) \<Rightarrow> db_call list \<Rightarrow> bool" where
  "marks_follow_adds P [] = True"
| "marks_follow_adds P (MarkProcessed filename file_hash # cs) = False"
| "marks_follow_adds P (AddDocuments docs r # MarkProcessed filename file_hash # cs) =
     (r = None \<and> P docs filename file_hash \<and> marks_follow_adds P cs)"
| "marks_follow_adds P (AddDocuments docs r # cs) = marks_follow_adds P cs"

definition chunks_of_corpus ::
  "'vs ingest_env \<Rightarrow> ingestion_config \<Rightarrow> source_file list \<Rightarrow> document list \<Rightarrow> string \<Rightarrow> string \<Rightarrow> bool" where
  "chunks_of_corpus env cfg fs docs filename file_hash \<longleftrightarrow>
     list_ex (\<lambda>f. path_name (path f) = filename \<and> calculate_file_hash env f = Inr file_hash \<and>
                  fst (process_file env cfg f) = docs \<and> docs \<noteq> []) fs"

definition new_calls :: "'vs pipeline_state \<Rightarrow> 'vs pipeline_state \<Rightarrow> db_call list" where
  "new_calls before after = drop (length (calls before)) (calls after)"

text \<open>
  A store that accepts the first insertion and raises on every later one, the other
  collaborators as above.
\<close>

definition flaky_env :: "(document list) ingest_env" where
  "flaky_env =
     double_env\<lparr>vs_add_documents :=
       (\<lambda>vs docs. if vs = [] then (None, vs @ docs)
                   else (Some (PyException RuntimeError (ustr ''database is locked'')), vs))\<rparr>"

text \<open>
  A registry file that exists and holds bytes that are not valid text in the encoding
  of \<open>open(path, 'r')\<close>: reading it raises \<open>UnicodeDecodeError\<close>. The parser is never
  reached; it is given as one that rejects every text.
\<close>

definition garbled_registry_io :: registry_io where
  "garbled_registry_io =
     \<lparr>path_exists = (\<lambda>p. True),
      read_text = (\<lambda>p. Inl (PyException UnicodeDecodeError
                     (ustr ''invalid start byte''))),
      json_loads = (\<lambda>text. Inl (PyException JSONDecodeError (ustr ''Expecting value'')))\<rparr>"

text \<open>
  A registry file that exists and holds a JSON text cut off in the middle (an opening
  brace, the key \<open>a.pdf\<close> in quotes, a colon and nothing more).
\<close>

definition truncated_registry_io :: registry_io where
  "truncated_registry_io =
     \<lparr>path_exists = (\<lambda>p. True),
      read_text = (\<lambda>p. Inr ([123, 34] @ ustr ''a.pdf'' @ [34, 58, 32])),
      json_loads = (\<lambda>text. Inl (PyException JSONDecodeError (ustr ''Expecting value'')))\<rparr>"

section \<open>Answering (rag_retrieval.py)\<close>

text \<open>
  The objects that \<open>initialize_rag\<close> builds are identified by their constructor
  arguments. A prompt template is its text cut at the two placeholders.
\<close>

datatype embeddings = HuggingFaceEmbeddings string

datatype chroma = Chroma string embeddings

datatype chat_model = ChatGoogleGenerativeAI string

datatype segment = Literal pystr | Placeholder string

datatype prompt_template = PromptTemplate "segment list"

text \<open>
  The module's globals (lines 5-7), and with them the prompts that were passed to
  \<open>llm.invoke\<close> so far: the trace of calls to the generation backend.
\<close>

record rag_state =
  vector_store :: "chroma option"
  llm :: "chat_model option"
  PROMPT :: "prompt_template option"
  invocations :: "pystr list"

text \<open>
  The collaborators of the answering path: the console behind \<open>print\<close> (\<open>None\<close> when
  the line is written, otherwise the exception, \<open>UnicodeEncodeError\<close> for a character
  that the encoding of stdout lacks), the imports of lines 13-16, the value of
  \<open>GOOGLE_API_KEY\<close> after \<open>load_dotenv()\<close>, the three constructors, the similarity
  search and the generation backend (\<open>llm.invoke(prompt).content\<close>). Each may raise.
  \<open>traceback.print_exc()\<close> writes to stderr, whose error handler replaces what it cannot
  encode; it is taken not to raise.
\<close>

record rag_env =
  console_print :: "pystr \<Rightarrow> py_exception option"
  import_langchain :: "py_exception option"
  getenv_google_api_key :: "string option"
  new_embeddings :: "string \<Rightarrow> py_exception + embeddings"
  new_chroma :: "string \<Rightarrow> embeddings \<Rightarrow> py_exception + chroma"
  new_chat_model :: "string \<Rightarrow> py_exception + chat_model"
  similarity_search :: "chroma \<Rightarrow> pystr \<Rightarrow> nat \<Rightarrow> py_exception + document list"
  llm_invoke :: "chat_model \<Rightarrow> pystr \<Rightarrow> py_exception + pystr"

text \<open>The template of lines 40-49; 10 is the line break and 39 the apostrophe.\<close>

definition template :: "segment list" where
  "template =
     [Literal (ustr ''Use the following pieces of context to answer the question at the end.'' @ [10] @
               ustr ''If you don'' @ [39] @ ustr ''t know the answer, just say that you don'' @ [39] @
               ustr ''t know, don'' @ [39] @ ustr ''t try to make up an answer.'' @ [10] @
               ustr ''IMPORTANT: After answering, please provide a '' @ [39] @
               ustr ''Context Adherence Score'' @ [39] @
               ustr '' (0-100%) indicating how much of your answer is based strictly on the provided context vs your general knowledge.'' @
               [10, 10] @ ustr ''Context:'' @ [10]),
      Placeholder ''context'',
      Literal ([10, 10] @ ustr ''Question: ''),
      Placeholder ''question'',
      Literal ([10, 10] @ ustr ''Answer:'')]"

text \<open>\<open>PROMPT.format(context=context, question=question)\<close>\<close>

fun format_segment :: "pystr \<Rightarrow> pystr \<Rightarrow> segment \<Rightarrow> pystr" where
  "format_segment context question (Literal text) = text"
| "format_segment context question (Placeholder name) =
     (if name = ''context'' then context else if name = ''question'' then question else [])"

fun prompt_format :: "prompt_template \<Rightarrow> pystr \<Rightarrow> pystr \<Rightarrow> pystr" where
  "prompt_format (PromptTemplate segments) context question =
     concat (map (format_segment context question) segments)"

text \<open>\<open>sep.join(parts)\<close>\<close>

fun str_join :: "pystr \<Rightarrow> pystr list \<Rightarrow> pystr" where
  "str_join sep [] = []"
| "str_join sep [p] = p"
| "str_join sep (p # q # ps) = p @ sep @ str_join sep (q # ps)"

text \<open>
  The \<open>try\<close> block of \<open>initialize_rag\<close> (lines 12-54): the exception that leaves it, if
  any, and the globals afterwards. The globals are assigned one after the other, so an
  exception in the middle leaves the earlier ones set.
\<close>

definition initialize_body :: "rag_env \<Rightarrow> rag_state \<Rightarrow> py_exception option \<times> rag_state" where
  "initialize_body env g =
     (case console_print env (ustr ''Initializing RAG pipeline (Manual Mode)...'') of
        Some e \<Rightarrow> (Some e, g)
      | None \<Rightarrow>
     (case import_langchain env of
        Some e \<Rightarrow> (Some e, g)
      | None \<Rightarrow>
     (if getenv_google_api_key env = None \<or> getenv_google_api_key env = Some []
      then (Some (PyException ValueError
              (ustr ''GOOGLE_API_KEY environment variable is not set. Please create a .env file or set the variable.'')), g)
      else
     (case console_print env (ustr ''Loading embeddings...'') of
        Some e \<Rightarrow> (Some e, g)
      | None \<Rightarrow>
     (case new_embeddings env ''sentence-transformers/all-mpnet-base-v2'' of
        Inl e \<Rightarrow> (Some e, g)
      | Inr emb \<Rightarrow>
     (case console_print env (ustr ''Loading Vector DB...'') of
        Some e \<Rightarrow> (Some e, g)
      | None \<Rightarrow>
     (case new_chroma env ''./chroma_db'' emb of
        Inl e \<Rightarrow> (Some e, g)
      | Inr store \<Rightarrow>
     (case console_print env (ustr ''Loading LLM...'') of
        Some e \<Rightarrow> (Some e, g\<lparr>vector_store := Some store\<rparr>)
      | None \<Rightarrow>
     (case new_chat_model env ''gemini-2.5-flash-lite'' of
        Inl e \<Rightarrow> (Some e, g\<lparr>vector_store := Some store\<rparr>)
      | Inr model \<Rightarrow>
     (case console_print env (ustr ''RAG pipeline initialized successfully.'') of
        Some e \<Rightarrow>
          (Some e, g\<lparr>vector_store := Some store, llm := Some model,
                      PROMPT := Some (PromptTemplate template)\<rparr>)
      | None \<Rightarrow>
          (None, g\<lparr>vector_store := Some store, llm := Some model,
                    PROMPT := Some (PromptTemplate template)\<rparr>)))))))))))"

text \<open>
  \<open>initialize_rag\<close> (lines 9-58): the handler prints the message and re-raises; an
  exception of its own \<open>print\<close> takes the place of the first.
\<close>

definition initialize_rag :: "rag_env \<Rightarrow> rag_state \<Rightarrow> py_exception option \<times> rag_state" where
  "initialize_rag env g =
     (case initialize_body env g of
        (None, g1) \<Rightarrow> (None, g1)
      | (Some e, g1) \<Rightarrow>
          (case console_print env (ustr ''Failed to initialize RAG: '' @ str_of e) of
             Some e' \<Rightarrow> (Some e', g1)
           | None \<Rightarrow> (Some e, g1)))"

text \<open>
  A method call on a global that is still \<open>None\<close> raises \<open>AttributeError\<close>.
\<close>

definition none_has_no_attribute :: "string \<Rightarrow> py_exception" where
  "none_has_no_attribute name =
     PyException AttributeError
       ([39] @ ustr ''NoneType'' @ [39] @ ustr '' object has no attribute '' @ [39] @ ustr name @ [39])"

text \<open>The result dictionary of \<open>get_answer\<close>.\<close>

record answer =
  result :: pystr
  source_documents :: "document list"

text \<open>
  The body of the second \<open>try\<close> block of \<open>get_answer\<close> (lines 72-90): the value it
  returns or the exception that leaves it, and the state afterwards.
\<close>

definition run_chain :: "rag_env \<Rightarrow> rag_state \<Rightarrow> pystr \<Rightarrow> (py_exception + answer) \<times> rag_state" where
  "run_chain env g question =
     (case console_print env (ustr ''Retrieving documents...'') of
        Some e \<Rightarrow> (Inl e, g)
      | None \<Rightarrow>
     (case vector_store g of
        None \<Rightarrow> (Inl (none_has_no_attribute ''similarity_search''), g)
      | Some store \<Rightarrow>
     (case similarity_search env store question 4 of
        Inl e \<Rightarrow> (Inl e, g)
      | Inr docs \<Rightarrow>
     (let context = str_join [10, 10] (map page_content docs)
      in case console_print env (ustr ''Generating answer...'') of
        Some e \<Rightarrow> (Inl e, g)
      | None \<Rightarrow>
     (case PROMPT g of
        None \<Rightarrow> (Inl (none_has_no_attribute ''format''), g)
      | Some prompt \<Rightarrow>
     (let formatted_prompt = prompt_format prompt context question
      in case llm g of
        None \<Rightarrow> (Inl (none_has_no_attribute ''invoke''), g)
      | Some model \<Rightarrow>
     (case llm_invoke env model formatted_prompt of
        Inl e \<Rightarrow> (Inl e, g\<lparr>invocations := invocations g @ [formatted_prompt]\<rparr>)
      | Inr result_text \<Rightarrow>
          (Inr \<lparr>result = result_text, source_documents = docs\<rparr>,
           g\<lparr>invocations := invocations g @ [formatted_prompt]\<rparr>))))))))"

text \<open>
  The handler of the second \<open>try\<close> block (lines 91-95): it prints the message and
  returns the error dictionary; an exception of its \<open>print\<close> reaches the caller.
\<close>

definition chain_handler :: "rag_env \<Rightarrow> py_exception \<Rightarrow> rag_state \<Rightarrow> (py_exception + answer) \<times> rag_state" where
  "chain_handler env e g =
     (case console_print env (ustr ''Error running chain: '' @ str_of e) of
        Some e' \<Rightarrow> (Inl e', g)
      | None \<Rightarrow> (Inr \<lparr>result = ustr ''Error: '' @ str_of e, source_documents = []\<rparr>, g))"

text \<open>
  \<open>get_answer\<close> (lines 60-95). Its value is \<open>Inr\<close> of the dictionary it returns, or
  \<open>Inl\<close> of an exception that reaches the caller. Both handlers are \<open>except Exception\<close>;
  the \<open>print\<close> of the question at line 70 is inside no \<open>try\<close>.
\<close>

definition get_answer :: "rag_env \<Rightarrow> rag_state \<Rightarrow> pystr \<Rightarrow> (py_exception + answer) \<times> rag_state" where
  "get_answer env g question =
     (case (if vector_store g = None then initialize_rag env g else (None, g)) of
        (Some e, g1) \<Rightarrow>
          (Inr \<lparr>result = ustr ''System Error: Failed to initialize RAG pipeline. '' @ str_of e,
                source_documents = []\<rparr>, g1)
      | (None, g1) \<Rightarrow>
          (case console_print env (ustr ''Question: '' @ question) of
             Some e \<Rightarrow> (Inl e, g1)
           | None \<Rightarrow>
               (case run_chain env g1 question of
                  (Inr a, g2) \<Rightarrow> (Inr a, g2)
                | (Inl e, g2) \<Rightarrow> chain_handler env e g2)))"

subsection \<open>A test double for the answering path\<close>

text \<open>
  A console that accepts every line, an empty index and a backend that answers every
  prompt with the same sentence; a variant whose index returns one chunk and whose
  backend raises; and a variant whose console has the ASCII encoding, so that a line
  with a code point above 127 raises \<open>UnicodeEncodeError\<close>.
\<close>

definition no_globals :: rag_state where
  "no_globals = \<lparr>vector_store = None, llm = None, PROMPT = None, invocations = []\<rparr>"

text \<open>The globals after a successful \<open>initialize_rag\<close>.\<close>

definition ready_globals :: rag_state where
  "ready_globals =
     \<lparr>vector_store = Some (Chroma ''./chroma_db'' (HuggingFaceEmbeddings ''sentence-transformers/all-mpnet-base-v2'')),
      llm = Some (ChatGoogleGenerativeAI ''gemini-2.5-flash-lite''),
      PROMPT = Some (PromptTemplate template),
      invocations = []\<rparr>"

definition empty_index_env :: rag_env where
  "empty_index_env =
     \<lparr>console_print = (\<lambda>line. None),
      import_langchain = None,
      getenv_google_api_key = Some ''test-key'',
      new_embeddings = (\<lambda>name. Inr (HuggingFaceEmbeddings name)),
      new_chroma = (\<lambda>dir emb. Inr (Chroma dir emb)),
      new_chat_model = (\<lambda>name. Inr (ChatGoogleGenerativeAI name)),
      similarity_search = (\<lambda>store query k. Inr []),
      llm_invoke = (\<lambda>model prompt. Inr (ustr ''Check the oil level with the dipstick.''))\<rparr>"

definition oil_chunk :: document where
  "oil_chunk = \<lparr>page_content = ustr ''Engine oil: check the level through the sight glass.'',
                 metadata = [(''source'', MStr ''manual.pdf'')]\<rparr>"

definition failing_backend_env :: rag_env where
  "failing_backend_env =
     empty_index_env
       \<lparr>similarity_search := (\<lambda>store query k. Inr [oil_chunk]),
        llm_invoke := (\<lambda>model prompt. Inl (PyException RuntimeError (ustr ''quota exceeded'')))\<rparr>"

definition ascii_console_env :: rag_env where
  "ascii_console_env =
     empty_index_env
       \<lparr>console_print :=
          (\<lambda>line. if list_ex (\<lambda>c. 127 < c) line
                   then Some (PyException UnicodeEncodeError (ustr ''ordinal not in range(128)''))
                   else None)\<rparr>"

text \<open>A question with the bicycle emoji, code point 128690.\<close>

definition bicycle_question :: pystr where
  "bicycle_question = ustr ''How do I clean my '' @ [128690] @ ustr ''?''"

text \<open>
  The globals after an \<open>initialize_rag\<close> that raised at the construction of the model:
  the store is set, the model and the template are not.
\<close>

definition half_initialised :: rag_state where
  "half_initialised =
     \<lparr>vector_store = Some (Chroma ''./chroma_db'' (HuggingFaceEmbeddings ''sentence-transformers/all-mpnet-base-v2'')),
      llm = None, PROMPT = None, invocations = []\<rparr>"

definition oil_question :: pystr where
  "oil_question = ustr ''How do I check the engine oil level?''"

section \<open>Properties of text cleaning\<close>

lemma concat_runs: "concat (runs xs) = xs"
  by (induction xs rule: runs.induct) auto

lemma runs_constant: "r \<in> set (runs xs) \<Longrightarrow> \<exists>x n. r = replicate (Suc n) x"
proof (induction xs rule: runs.induct)
  case 1
  then show ?case by simp
next
  case (2 x xs)
  have "takeWhile (\<lambda>y. y = x) xs = replicate (length (takeWhile (\<lambda>y. y = x) xs)) x"
    by (rule replicate_length_same [symmetric]) (auto dest: set_takeWhileD)
  then have "x # takeWhile (\<lambda>y. y = x) xs = replicate (Suc (length (takeWhile (\<lambda>y. y = x) xs))) x"
    by simp
  with 2 show ?case
    by auto
qed

lemma runs_maximal:
  "runs xs = r # s # rest \<Longrightarrow> hd r \<noteq> hd s"
proof (cases xs)
  case Nil
  then show "runs xs = r # s # rest \<Longrightarrow> hd r \<noteq> hd s" by simp
next
  case (Cons x xs')
  assume "runs xs = r # s # rest"
  with Cons have r: "r = x # takeWhile (\<lambda>y. y = x) xs'"
    and s: "runs (dropWhile (\<lambda>y. y = x) xs') = s # rest"
    by simp_all
  from s obtain y ys where d: "dropWhile (\<lambda>y. y = x) xs' = y # ys"
    by (cases "dropWhile (\<lambda>y. y = x) xs'") auto
  then have "y \<noteq> x"
    using hd_dropWhile [of "\<lambda>y. y = x" xs'] by auto
  moreover from s d have "hd s = y"
    by auto
  ultimately show "hd r \<noteq> hd s"
    using r by simp
qed

lemma sub_newlines_other_run:
  "x \<noteq> 10 \<Longrightarrow>
   sub_newlines ys = takeWhile (\<lambda>y. y = x) ys @ sub_newlines (dropWhile (\<lambda>y. y = x) ys)"
  by (induction ys) auto

lemma sub_newlines_short_run:
  "length (takeWhile (\<lambda>y. y = 10) ys) < 3 \<Longrightarrow>
   sub_newlines ys = takeWhile (\<lambda>y. y = 10) ys @ sub_newlines (dropWhile (\<lambda>y. y = 10) ys)"
  by (induction ys) (auto simp: Let_def)

lemma drop_takeWhile_length: "drop (length (takeWhile P xs)) xs = dropWhile P xs"
  by (induction xs) auto

lemma sub_newlines_runs: "sub_newlines t = concat (map squeeze_run (runs t))"
proof (induction t rule: runs.induct)
  case 1
  then show ?case by simp
next
  case (2 x xs)
  let ?run = "x # takeWhile (\<lambda>y. y = x) xs"
  let ?rest = "dropWhile (\<lambda>y. y = x) xs"
  have IH: "sub_newlines ?rest = concat (map squeeze_run (runs ?rest))"
    using "2.IH" .
  show ?case
  proof (cases "x = 10")
    case False
    then have "squeeze_run ?run = ?run"
      by (auto simp: squeeze_run_def)
    moreover have "sub_newlines (x # xs) = x # sub_newlines xs"
      using False by simp
    moreover have "sub_newlines xs = takeWhile (\<lambda>y. y = x) xs @ sub_newlines ?rest"
      using False by (rule sub_newlines_other_run)
    ultimately show ?thesis
      using IH by simp
  next
    case True
    have run_set: "set ?run = {10}"
      using True by (auto dest: set_takeWhileD)
    have n: "length (takeWhile (\<lambda>y. y = 10) (x # xs)) = length ?run"
      using True by simp
    show ?thesis
    proof (cases "3 \<le> length ?run")
      case long: True
      have "squeeze_run ?run = [10, 10]"
        unfolding squeeze_run_def using long run_set by (simp only: simp_thms if_True)
      moreover have "sub_newlines (x # xs) = [10, 10] @ sub_newlines ?rest"
        using long True drop_takeWhile_length [of "\<lambda>y. y = 10" "xs"] by (simp add: Let_def)
      ultimately show ?thesis
        using IH by simp
    next
      case short: False
      then have "squeeze_run ?run = ?run"
        by (simp add: squeeze_run_def)
      moreover have "sub_newlines (x # xs) =
          takeWhile (\<lambda>y. y = 10) (x # xs) @ sub_newlines (dropWhile (\<lambda>y. y = 10) (x # xs))"
        using short n by (intro sub_newlines_short_run) simp
      ultimately show ?thesis
        using IH True by simp
    qed
  qed
qed

lemma rev_dropWhile_rev_prefix:
  "xs = rev (dropWhile P (rev xs)) @ rev (takeWhile P (rev xs))"
proof -
  have "rev xs = takeWhile P (rev xs) @ dropWhile P (rev xs)"
    by simp
  then have "rev (rev xs) = rev (takeWhile P (rev xs) @ dropWhile P (rev xs))"
    by (rule arg_cong)
  then show ?thesis
    by (simp only: rev_rev_ident rev_append)
qed

lemma hd_rev_dropWhile_rev:
  assumes "dropWhile P (rev xs) \<noteq> []"
  shows "hd (rev (dropWhile P (rev xs))) = hd xs"
proof -
  from assms have "rev (dropWhile P (rev xs)) \<noteq> []"
    by (simp only: rev_is_Nil_conv not_False_eq_True)
  then have "hd (rev (dropWhile P (rev xs)) @ rev (takeWhile P (rev xs))) = hd (rev (dropWhile P (rev xs)))"
    by (rule hd_append2)
  then show ?thesis
    using rev_dropWhile_rev_prefix [of xs P] by (simp only:)
qed

lemma strip_ends_gen:
  assumes b: "dropWhile P (rev (dropWhile P s)) \<noteq> []"
  shows "\<not> P (hd (rev (dropWhile P (rev (dropWhile P s))))) \<and>
         \<not> P (last (rev (dropWhile P (rev (dropWhile P s)))))"
proof -
  let ?a = "dropWhile P s"
  let ?b = "dropWhile P (rev ?a)"
  have "\<not> P (hd ?b)"
    using b by (rule hd_dropWhile)
  then have l: "\<not> P (last (rev ?b))"
    using b by (simp add: last_rev del: dropWhile_eq_Nil_conv)
  from b have a: "?a \<noteq> []"
    by (metis dropWhile.simps(1) rev.simps(1))
  then have "\<not> P (hd ?a)"
    by (rule hd_dropWhile)
  then have "\<not> P (hd (rev ?b))"
    using hd_rev_dropWhile_rev [OF b] by simp
  with l show ?thesis by blast
qed

lemma strip_ends:
  "strip s \<noteq> [] \<Longrightarrow> \<not> is_space (hd (strip s)) \<and> \<not> is_space (last (strip s))"
  unfolding strip_def by (rule strip_ends_gen) (simp only: rev_is_Nil_conv simp_thms)

text \<open>
  C9. For every input text, \<open>clean_text\<close> is exactly: every maximal run of three or more
  line breaks replaced by two line breaks, then every non-breaking space (U+00A0)
  replaced by a space, then leading and trailing whitespace removed; the runs are a
  partition of the input, so nothing else changes, and a non-empty result neither starts
  nor ends with whitespace.
\<close>

theorem clean_text_refines_spec:
  "clean_text t = spec_clean_text t \<and>
   concat (runs t) = t \<and>
   (clean_text t \<noteq> [] \<longrightarrow> \<not> is_space (hd (clean_text t)) \<and> \<not> is_space (last (clean_text t)))"
  using strip_ends [of "str_replace 160 32 (sub_newlines t)"]
  by (simp add: clean_text_def spec_clean_text_def sub_newlines_runs concat_runs)

text \<open>
  C9, witness: a text with a leading space, runs of four, two and three line breaks, a
  non-breaking space and a trailing tab.
\<close>

theorem clean_text_refines_spec_witness:
  "clean_text [32, 10, 10, 10, 10, 65, 160, 66, 10, 10, 67, 10, 10, 10, 9] = [65, 32, 66, 10, 10, 67] \<and>
   spec_clean_text [32, 10, 10, 10, 10, 65, 160, 66, 10, 10, 67, 10, 10, 10, 9] = [65, 32, 66, 10, 10, 67] \<and>
   \<not> is_space 65 \<and> \<not> is_space 67"
  using clean_text_refines_spec [of "[32, 10, 10, 10, 10, 65, 160, 66, 10, 10, 67, 10, 10, 10, 9]"]
  by (simp add: clean_text_def strip_def str_replace_def is_space_def)

section \<open>Properties of the ingestion run\<close>

subsection \<open>The loop body\<close>

lemma logger_fields [simp]:
  "registry (logger e st) = registry st"
  "registry_on_disk (logger e st) = registry_on_disk st"
  "calls (logger e st) = calls st"
  "vectorstore (logger e st) = vectorstore st"
  "log (logger e st) = log st @ [e]"
  by (simp_all add: logger_def)

lemma logger_all_fields [simp]:
  "registry (logger_all es st) = registry st"
  "registry_on_disk (logger_all es st) = registry_on_disk st"
  "calls (logger_all es st) = calls st"
  "vectorstore (logger_all es st) = vectorstore st"
  "log (logger_all es st) = log st @ es"
  by (simp_all add: logger_all_def)

lemma mark_processed_fields [simp]:
  "registry (mark_processed nm h st) = (registry st)(nm \<mapsto> h)"
  "registry_on_disk (mark_processed nm h st) = Some ((registry st)(nm \<mapsto> h))"
  "calls (mark_processed nm h st) = calls st @ [MarkProcessed nm h]"
  "vectorstore (mark_processed nm h st) = vectorstore st"
  "log (mark_processed nm h st) = log st"
  by (simp_all add: mark_processed_def)

lemma add_documents_empty [simp]: "add_documents env [] st = (None, st)"
  by (simp add: add_documents_def)

lemma add_documents_fields:
  assumes "add_documents env docs st = (r, st')" and "docs \<noteq> []"
  shows "vs_add_documents env (vectorstore st) docs = (r, vectorstore st')"
    and "registry st' = registry st"
    and "registry_on_disk st' = registry_on_disk st"
    and "calls st' = calls st @ [AddDocuments docs r]"
    and "log st' = log st"
  using assms by (auto simp: add_documents_def split: prod.splits)

text \<open>The five ways through the loop body.\<close>

lemma ingest_file_unreadable:
  assumes "calculate_file_hash env f = Inl e"
  shows "ingest_file env cfg st n f = (Some e, st, n)"
  using assms by (simp add: ingest_file_def)

lemma ingest_file_skip:
  assumes "calculate_file_hash env f = Inr h"
    and "is_processed (registry st) (path_name (path f)) h"
  shows "ingest_file env cfg st n f = (None, logger (Info_Skipping (path_name (path f))) st, n)"
  using assms by (simp add: ingest_file_def Let_def)

lemma ingest_file_no_content:
  assumes "calculate_file_hash env f = Inr h"
    and "\<not> is_processed (registry st) (path_name (path f)) h"
    and "process_file env cfg f = ([], logged)"
  shows "ingest_file env cfg st n f =
           (None,
            logger (Warning_NoValidContent (path_name (path f)))
              (logger_all logged (logger (Info_Processing (path_name (path f))) st)),
            n)"
  using assms by (simp add: ingest_file_def Let_def)

lemma ingest_file_add_fails:
  assumes "calculate_file_hash env f = Inr h"
    and "\<not> is_processed (registry st) (path_name (path f)) h"
    and "process_file env cfg f = (docs, logged)" and "docs \<noteq> []"
    and "vs_add_documents env (vectorstore st) docs = (Some e, vs')"
  shows "ingest_file env cfg st n f =
           (Some e,
            (logger_all logged (logger (Info_Processing (path_name (path f))) st))
              \<lparr>vectorstore := vs',
               calls := calls st @ [AddDocuments docs (Some e)]\<rparr>,
            n)"
  using assms by (simp add: ingest_file_def add_documents_def Let_def)

lemma ingest_file_added:
  assumes "calculate_file_hash env f = Inr h"
    and "\<not> is_processed (registry st) (path_name (path f)) h"
    and "process_file env cfg f = (docs, logged)" and "docs \<noteq> []"
    and "vs_add_documents env (vectorstore st) docs = (None, vs')"
  shows "ingest_file env cfg st n f =
           (None,
            logger (Info_Added (length docs) (path_name (path f)))
              (mark_processed (path_name (path f)) h
                 ((logger_all logged (logger (Info_Processing (path_name (path f))) st))
                    \<lparr>vectorstore := vs',
                     calls := calls st @ [AddDocuments docs None]\<rparr>)),
            n + length docs)"
  using assms by (simp add: ingest_file_def add_documents_def Let_def)

lemma ingest_file_cases [consumes 1, case_names unreadable skip no_content add_fails added]:
  assumes "ingest_file env cfg st n f = (r, st', n')"
  obtains
    (unreadable) e where
      "calculate_file_hash env f = Inl e" "r = Some e" "n' = n" "st' = st"
  | (skip) h where
      "calculate_file_hash env f = Inr h"
      "is_processed (registry st) (path_name (path f)) h"
      "r = None" "n' = n" "st' = logger (Info_Skipping (path_name (path f))) st"
  | (no_content) h logged where
      "calculate_file_hash env f = Inr h"
      "\<not> is_processed (registry st) (path_name (path f)) h"
      "process_file env cfg f = ([], logged)"
      "r = None" "n' = n"
      "st' = logger (Warning_NoValidContent (path_name (path f)))
              (logger_all logged (logger (Info_Processing (path_name (path f))) st))"
  | (add_fails) h docs logged e vs' where
      "calculate_file_hash env f = Inr h"
      "\<not> is_processed (registry st) (path_name (path f)) h"
      "process_file env cfg f = (docs, logged)" "docs \<noteq> []"
      "vs_add_documents env (vectorstore st) docs = (Some e, vs')"
      "r = Some e" "n' = n"
      "st' = (logger_all logged (logger (Info_Processing (path_name (path f))) st))
              \<lparr>vectorstore := vs', calls := calls st @ [AddDocuments docs (Some e)]\<rparr>"
  | (added) h docs logged vs' where
      "calculate_file_hash env f = Inr h"
      "\<not> is_processed (registry st) (path_name (path f)) h"
      "process_file env cfg f = (docs, logged)" "docs \<noteq> []"
      "vs_add_documents env (vectorstore st) docs = (None, vs')"
      "r = None" "n' = n + length docs"
      "st' = logger (Info_Added (length docs) (path_name (path f)))
              (mark_processed (path_name (path f)) h
                 ((logger_all logged (logger (Info_Processing (path_name (path f))) st))
                    \<lparr>vectorstore := vs', calls := calls st @ [AddDocuments docs None]\<rparr>))"
proof (cases "calculate_file_hash env f")
  case (Inl e)
  with assms unreadable show ?thesis
    by (auto simp: ingest_file_unreadable)
next
  case (Inr h)
  show ?thesis
  proof (cases "is_processed (registry st) (path_name (path f)) h")
    case True
    with Inr assms skip show ?thesis
      by (auto simp: ingest_file_skip)
  next
    case False
    obtain docs logged where pf: "process_file env cfg f = (docs, logged)"
      by (cases "process_file env cfg f")
    show ?thesis
    proof (cases "docs = []")
      case True
      with Inr False pf assms no_content show ?thesis
        by (auto simp: ingest_file_no_content)
    next
      case ne: False
      obtain r0 vs' where add: "vs_add_documents env (vectorstore st) docs = (r0, vs')"
        by (cases "vs_add_documents env (vectorstore st) docs")
      show ?thesis
      proof (cases r0)
        case None
        with Inr False pf ne add assms added show ?thesis
          by (auto simp: ingest_file_added)
      next
        case (Some e)
        with Inr False pf ne add assms add_fails show ?thesis
          by (auto simp: ingest_file_add_fails)
      qed
    qed
  qed
qed

subsection \<open>The loop over a corpus\<close>

lemma same_db_refl [simp]: "same_db st st"
  by (simp add: same_db_def)

lemma same_db_logger [simp]: "same_db (logger e st) st'  \<longleftrightarrow> same_db st st'"
  "same_db st (logger e st') \<longleftrightarrow> same_db st st'"
  "same_db (logger_all es st) st'  \<longleftrightarrow> same_db st st'"
  "same_db st (logger_all es st') \<longleftrightarrow> same_db st st'"
  by (simp_all add: same_db_def)

lemma registered_Inr:
  "calculate_file_hash env f = Inr h \<Longrightarrow>
   registered env reg f \<longleftrightarrow> is_processed reg (path_name (path f)) h"
  by (simp add: registered_def)

lemma registered_Inl: "calculate_file_hash env f = Inl e \<Longrightarrow> \<not> registered env reg f"
  by (simp add: registered_def)

lemma settled_Inr:
  "calculate_file_hash env f = Inr h \<Longrightarrow>
   settled env cfg reg f \<longleftrightarrow>
     is_processed reg (path_name (path f)) h \<or> fst (process_file env cfg f) = []"
  by (simp add: settled_def)

lemma settled_Inl: "calculate_file_hash env f = Inl e \<Longrightarrow> \<not> settled env cfg reg f"
  by (simp add: settled_def)

lemma registered_settled: "registered env reg f \<Longrightarrow> settled env cfg reg f"
  by (auto simp: registered_def settled_def split: sum.splits)

lemma ingest_file_registry:
  assumes "ingest_file env cfg st n f = (r, st', n')"
  shows "registry st' = registry st \<or>
         (\<exists>h. calculate_file_hash env f = Inr h \<and>
              registry st' = (registry st)(path_name (path f) \<mapsto> h) \<and>
              fst (process_file env cfg f) \<noteq> [] \<and> r = None)"
  using assms by (cases rule: ingest_file_cases) simp_all

lemma ingest_file_same_db:
  assumes "ingest_file env cfg st1 n f = (r, st1', n')" and "same_db st1 st2"
  shows "\<exists>st2'. ingest_file env cfg st2 n f = (r, st2', n') \<and> same_db st1' st2'"
  using assms(1)
proof (cases rule: ingest_file_cases)
  case (unreadable e)
  with assms(2) show ?thesis
    by (simp add: ingest_file_unreadable)
next
  case (skip h)
  with assms(2) show ?thesis
    by (simp add: ingest_file_skip same_db_def)
next
  case (no_content h logged)
  with assms(2) show ?thesis
    by (simp add: ingest_file_no_content same_db_def)
next
  case (add_fails h docs logged e vs')
  with assms(2) show ?thesis
    by (simp add: ingest_file_add_fails same_db_def)
next
  case (added h docs logged vs')
  with assms(2) show ?thesis
    by (simp add: ingest_file_added same_db_def)
qed

lemma run_loop_same_db:
  assumes "run_loop env cfg st1 n fs = (r, st1', n')" and "same_db st1 st2"
  shows "\<exists>st2'. run_loop env cfg st2 n fs = (r, st2', n') \<and> same_db st1' st2'"
  using assms
proof (induction fs arbitrary: st1 st2 n)
  case Nil
  then show ?case by auto
next
  case (Cons f fs)
  obtain r0 sa na where a: "ingest_file env cfg st1 n f = (r0, sa, na)"
    by (cases "ingest_file env cfg st1 n f")
  from ingest_file_same_db [OF a Cons.prems(2)]
  obtain sb where b: "ingest_file env cfg st2 n f = (r0, sb, na)" and s: "same_db sa sb"
    by blast
  show ?case
  proof (cases r0)
    case None
    with a Cons.prems(1) have "run_loop env cfg sa na fs = (r, st1', n')"
      by simp
    from Cons.IH [OF this s] None b show ?thesis
      by simp
  next
    case (Some e)
    with a b s Cons.prems(1) show ?thesis
      by auto
  qed
qed

lemma run_loop_append:
  "run_loop env cfg st n (pre @ post) =
     (case run_loop env cfg st n pre of
        (Some e, st', n') \<Rightarrow> (Some e, st', n')
      | (None, st', n') \<Rightarrow> run_loop env cfg st' n' post)"
  by (induction pre arbitrary: st n) (auto split: prod.splits option.splits)

lemma run_loop_registry_change:
  assumes "run_loop env cfg st n fs = (r, st', n')" and "registry st' nm \<noteq> registry st nm"
  shows "\<exists>g\<in>set fs. path_name (path g) = nm \<and> fst (process_file env cfg g) \<noteq> []"
  using assms
proof (induction fs arbitrary: st n)
  case Nil
  then show ?case by simp
next
  case (Cons f fs)
  obtain r0 sa na where a: "ingest_file env cfg st n f = (r0, sa, na)"
    by (cases "ingest_file env cfg st n f")
  show ?case
  proof (cases "registry sa nm = registry st nm")
    case True
    with Cons.prems a have "r0 = None"
      by (cases r0) auto
    with a Cons.prems(1) have "run_loop env cfg sa na fs = (r, st', n')"
      by simp
    from Cons.IH [OF this] True Cons.prems(2) show ?thesis
      by auto
  next
    case False
    with ingest_file_registry [OF a] show ?thesis
      by (auto split: if_splits)
  qed
qed

text \<open>After a loop that ran to its end, every file is registered or had no chunks.\<close>

lemma run_loop_registers:
  assumes "run_loop env cfg st n fs = (None, st', n')"
    and "distinct (map (\<lambda>f. path_name (path f)) fs)"
    and "f \<in> set fs"
  shows "settled env cfg (registry st') f"
  using assms
proof (induction fs arbitrary: st n)
  case Nil
  then show ?case by simp
next
  case (Cons g fs)
  obtain r0 sa na where a: "ingest_file env cfg st n g = (r0, sa, na)"
    by (cases "ingest_file env cfg st n g")
  with Cons.prems(1) have r0: "r0 = None" and rest: "run_loop env cfg sa na fs = (None, st', n')"
    by (cases r0; simp)+
  show ?case
  proof (cases "f = g")
    case False
    with Cons.prems have "f \<in> set fs" and "distinct (map (\<lambda>f. path_name (path f)) fs)"
      by simp_all
    with Cons.IH [OF rest] show ?thesis
      by simp
  next
    case True
    have keep: "registry st' (path_name (path g)) = registry sa (path_name (path g))"
    proof (rule ccontr)
      assume "registry st' (path_name (path g)) \<noteq> registry sa (path_name (path g))"
      from run_loop_registry_change [OF rest this] Cons.prems(2) show False
        by (auto simp: image_iff)
    qed
    from a show ?thesis
    proof (cases rule: ingest_file_cases)
      case (unreadable e)
      with r0 show ?thesis by simp
    next
      case (skip h)
      with keep True show ?thesis by (simp add: settled_Inr is_processed_def)
    next
      case (no_content h logged)
      with True show ?thesis by (simp add: settled_Inr)
    next
      case (add_fails h docs logged e vs')
      with r0 show ?thesis by simp
    next
      case (added h docs logged vs')
      with keep True show ?thesis by (simp add: settled_Inr is_processed_def)
    qed
  qed
qed

text \<open>A loop over files that are all registered or without chunks changes only the log.\<close>

lemma run_loop_quiescent:
  assumes "\<forall>f\<in>set fs. settled env cfg (registry st) f"
  shows "\<exists>st'. run_loop env cfg st n fs = (None, st', n) \<and> same_db st' st"
  using assms
proof (induction fs arbitrary: st)
  case Nil
  then show ?case by simp
next
  case (Cons g fs)
  obtain r0 sa na where a: "ingest_file env cfg st n g = (r0, sa, na)"
    by (cases "ingest_file env cfg st n g")
  from Cons.prems have g: "settled env cfg (registry st) g"
    by simp
  from a have step: "r0 = None \<and> na = n \<and> same_db sa st"
  proof (cases rule: ingest_file_cases)
    case (unreadable e)
    with g show ?thesis by (simp add: settled_Inl)
  next
    case (skip h)
    then show ?thesis by simp
  next
    case (no_content h logged)
    then show ?thesis by simp
  next
    case (add_fails h docs logged e vs')
    with g show ?thesis by (simp add: settled_Inr)
  next
    case (added h docs logged vs')
    with g show ?thesis by (simp add: settled_Inr)
  qed
  then have "registry sa = registry st"
    by (simp add: same_db_def)
  with Cons.prems have "\<forall>f\<in>set fs. settled env cfg (registry sa) f"
    by simp
  from Cons.IH [OF this] obtain st' where "run_loop env cfg sa n fs = (None, st', n)" "same_db st' sa"
    by blast
  with a step show ?case
    by (auto simp: same_db_def)
qed

text \<open>
  The registry file follows the registry in memory: after any change in a loop the file
  holds the registry as it is in memory, so a process that starts from a registry equal
  to its file ends with one, and a later process that loads the file starts from the
  registry this one ended with.
\<close>

lemma run_loop_write_through:
  assumes "run_loop env cfg st n fs = (r, st', n')"
  shows "registry_on_disk st' = Some (registry st') \<or>
         (registry_on_disk st' = registry_on_disk st \<and> registry st' = registry st)"
  using assms
proof (induction fs arbitrary: st n)
  case Nil
  then show ?case by simp
next
  case (Cons f fs)
  obtain r0 sa na where a: "ingest_file env cfg st n f = (r0, sa, na)"
    by (metis prod_cases3)
  from a have step: "registry_on_disk sa = Some (registry sa) \<or>
         (registry_on_disk sa = registry_on_disk st \<and> registry sa = registry st)"
    by (cases rule: ingest_file_cases) simp_all
  show ?case
  proof (cases r0)
    case (Some e)
    with a Cons.prems step show ?thesis
      by simp
  next
    case None
    with a Cons.prems have "run_loop env cfg sa na fs = (r, st', n')"
      by simp
    from Cons.IH [OF this] step show ?thesis
      by auto
  qed
qed

lemma new_process_fields [simp]:
  "vectorstore (new_process st) = vectorstore st"
  "registry_on_disk (new_process st) = registry_on_disk st"
  "calls (new_process st) = calls st"
  "log (new_process st) = log st"
  "registry (new_process st) = (case registry_on_disk st of None \<Rightarrow> Map.empty | Some reg \<Rightarrow> reg)"
  by (simp_all add: new_process_def)

text \<open>
  \<open>new_process\<close> gives the registry that \<open>_load_registry\<close> returns, whenever the file
  system and the parser show the registry file as the state has it.
\<close>

lemma new_process_loads_registry:
  assumes "path_exists io (registry_file cfg) \<longleftrightarrow> registry_on_disk st \<noteq> None"
    and "\<And>reg. registry_on_disk st = Some reg \<Longrightarrow>
           \<exists>text. read_text io (registry_file cfg) = Inr text \<and> json_loads io text = Inr reg"
  shows "load_registry io cfg = Inr (registry (new_process st))"
proof (cases "registry_on_disk st")
  case None
  with assms(1) show ?thesis
    by (simp add: load_registry_def)
next
  case (Some reg)
  with assms(2) obtain content where
    "read_text io (registry_file cfg) = Inr content" "json_loads io content = Inr reg"
    by blast
  with Some assms(1) show ?thesis
    by (simp add: load_registry_def)
qed

subsection \<open>The test double evaluated\<close>

lemma double_hashes:
  "calculate_file_hash double_env road_manual = Inr ''7ca3b8ba27f2a912d47b8cb7565fea73''"
  "calculate_file_hash double_env city_manual = Inr ''3e859fa52ccc1420ff84ba386b1b1a34''"
  "calculate_file_hash double_env trail_manual = Inr ''3086a723e786c5434038abcc05eb41b6''"
  "calculate_file_hash double_env trail_manual_mutated = Inr ''37fd1cee59963f568a0909b931540c9c''"
  "calculate_file_hash double_env cover_only = Inr ''414ad3f25d7199cd9d8ecc993267da4e''"
  by (simp_all add: calculate_file_hash_def double_env_def double_md5_def road_manual_def city_manual_def
      trail_manual_def trail_manual_mutated_def cover_only_def road_text_def city_text_def trail_text_def
      trail_text_mutated_def cover_text_def)

lemma double_names:
  "path_name (path road_manual) = ''manual.pdf''"
  "path_name (path city_manual) = ''manual.pdf''"
  "path_name (path trail_manual) = ''trail.pdf''"
  "path_name (path trail_manual_mutated) = ''trail.pdf''"
  "path_name (path cover_only) = ''cover.pdf''"
  "path_name (path broken_link) = ''broken.pdf''"
  by (simp_all add: path_name_def road_manual_def city_manual_def
      trail_manual_def trail_manual_mutated_def cover_only_def broken_link_def)

lemma double_broken:
  "calculate_file_hash double_env broken_link =
     Inl (PyException FileNotFoundError
            (ustr ''[Errno 2] No such file or directory: '' @ [39] @
             ustr ''bike_manuals/broken.pdf'' @ [39]))"
  by (simp add: calculate_file_hash_def broken_link_def)

lemma dropWhile_hd_id: "xs \<noteq> [] \<Longrightarrow> \<not> P (hd xs) \<Longrightarrow> dropWhile P xs = xs"
  by (cases xs) auto

lemma strip_no_space:
  assumes "s \<noteq> []" and "\<not> is_space (hd s)" and "\<not> is_space (last s)"
  shows "strip s = s"
proof -
  have "dropWhile is_space s = s"
    using assms(1,2) by (rule dropWhile_hd_id)
  moreover have "dropWhile is_space (rev s) = rev s"
    using assms(1,3) by (intro dropWhile_hd_id) (simp_all add: hd_rev)
  ultimately show ?thesis
    by (simp add: strip_def)
qed

lemma double_texts_strip:
  "strip (ustr road_text) = ustr road_text"
  "strip (ustr city_text) = ustr city_text"
  "strip (ustr trail_text) = ustr trail_text"
  "strip (ustr trail_text_mutated) = ustr trail_text_mutated"
  "strip (ustr cover_text) = ustr cover_text"
  by (rule strip_no_space; simp add: ustr_def road_text_def city_text_def trail_text_def
      trail_text_mutated_def cover_text_def is_space_def)+

lemma double_process_file:
  "fst (process_file double_env cfg road_manual) \<noteq> []"
  "fst (process_file double_env cfg city_manual) \<noteq> []"
  "fst (process_file double_env cfg trail_manual) \<noteq> []"
  "fst (process_file double_env cfg trail_manual_mutated) \<noteq> []"
  "process_file double_env cfg cover_only = ([], [])"
  by (simp_all add: process_file_def double_env_def double_load_def double_texts_strip
      road_manual_def city_manual_def trail_manual_def trail_manual_mutated_def cover_only_def,
      simp_all add: ustr_def road_text_def city_text_def trail_text_def
      trail_text_mutated_def cover_text_def corrupt_text_def)

lemma double_env_sel [simp]:
  "vs_add_documents double_env = (\<lambda>vs docs. (None, vs @ docs))"
  "vs_similarity_search double_env = (\<lambda>vs query k. Inr (take k vs))"
  by (simp_all add: double_env_def)

lemma double_process_file_page:
  assumes "read_bytes f = Inr bytes"
    and "50 \<le> length (strip (ustr bytes))" and "bytes \<noteq> corrupt_text"
  shows "process_file double_env cfg f =
           ([\<lparr>page_content = clean_text (ustr bytes),
              metadata = dict_update [(''source'', MStr (path f)), (''page'', MInt 0)]
                           (extract_metadata (path f))\<rparr>], [])"
proof -
  from assms(2) have "ustr bytes \<noteq> []"
    by (auto simp: strip_def)
  with assms show ?thesis
    by (simp add: process_file_def double_env_def double_load_def)
qed

lemma double_bytes:
  "read_bytes road_manual = Inr road_text"
  "read_bytes city_manual = Inr city_text"
  "read_bytes trail_manual = Inr trail_text"
  "read_bytes trail_manual_mutated = Inr trail_text_mutated"
  by (simp_all add: road_manual_def city_manual_def trail_manual_def trail_manual_mutated_def)

lemma double_long:
  "50 \<le> length (strip (ustr road_text))"
  "50 \<le> length (strip (ustr city_text))"
  "50 \<le> length (strip (ustr trail_text))"
  "50 \<le> length (strip (ustr trail_text_mutated))"
  by (simp_all add: double_texts_strip, simp_all add: ustr_def road_text_def city_text_def trail_text_def
      trail_text_mutated_def)

lemma double_intact:
  "road_text \<noteq> corrupt_text"
  "city_text \<noteq> corrupt_text"
  "trail_text \<noteq> corrupt_text"
  "trail_text_mutated \<noteq> corrupt_text"
  by (simp_all add: road_text_def city_text_def trail_text_def trail_text_mutated_def corrupt_text_def)

lemma double_corrupt:
  "pdf_load double_env corrupt_manual = Inl (PyException RuntimeError (ustr ''EOF marker not found''))"
  "process_file double_env cfg corrupt_manual =
     ([], [Error_FailedToLoad ''bike_manuals/corrupt.pdf'' (PyException RuntimeError (ustr ''EOF marker not found''))])"
  "path_name (path corrupt_manual) = ''corrupt.pdf''"
  "calculate_file_hash double_env corrupt_manual = Inr ''4826a64c3ce8e040d337ffc483a8909b''"
  by (simp_all add: process_file_def double_env_def double_load_def corrupt_manual_def path_name_def
      calculate_file_hash_def double_md5_def corrupt_text_def road_text_def city_text_def trail_text_def
      trail_text_mutated_def cover_text_def)

lemmas double_pf =
  double_process_file_page [OF double_bytes(1) double_long(1) double_intact(1)]
  double_process_file_page [OF double_bytes(2) double_long(2) double_intact(2)]
  double_process_file_page [OF double_bytes(3) double_long(3) double_intact(3)]
  double_process_file_page [OF double_bytes(4) double_long(4) double_intact(4)]
  double_process_file(5) double_corrupt(2)

lemmas run_eval = run_def ingest_file_def Let_def double_hashes double_names double_corrupt(3,4) double_broken
  is_processed_def new_process_def
  double_pf add_documents_def validate_def logger_def logger_all_def mark_processed_def fresh_state_def

subsection \<open>A second run over an unchanged corpus\<close>

lemma validate_same_db: "same_db (snd (validate env st)) st"
  by (simp add: validate_def Let_def split: sum.splits list.splits)

lemma run_loop_of_run:
  assumes "run env cfg (Some fs) st = (r, st')"
  obtains r0 st0 n where
    "run_loop env cfg (logger (Info_Found (length fs) (source_dir cfg)) (logger Info_Starting st)) 0 fs = (r0, st0, n)"
    "same_db st' st0" "r = None \<Longrightarrow> r0 = None"
proof -
  obtain r0 st0 n where loop:
    "run_loop env cfg (logger (Info_Found (length fs) (source_dir cfg)) (logger Info_Starting st)) 0 fs = (r0, st0, n)"
    by (metis prod_cases3)
  show thesis
  proof (cases r0)
    case (Some e)
    with loop assms have "r = Some e" "st' = st0"
      by (simp_all add: run_def Let_def)
    with loop Some that show thesis
      by simp
  next
    case None
    with loop assms have "st' = snd (validate env (logger (if 0 < n then Info_CompleteTotal n else Info_CompleteNone) st0))"
      by (simp add: run_def Let_def split: prod.splits)
    then have "same_db st' (logger (if 0 < n then Info_CompleteTotal n else Info_CompleteNone) st0)"
      by (simp only: validate_same_db)
    then have "same_db st' st0"
      by simp
    with loop None that show thesis
      by simp
  qed
qed

lemma same_db_sym: "same_db a b \<Longrightarrow> same_db b a"
  by (auto simp: same_db_def)

lemma same_db_trans: "same_db a b \<Longrightarrow> same_db b c \<Longrightarrow> same_db a c"
  by (auto simp: same_db_def)

text \<open>
  A process that started from the registry file ends with a registry equal to the file,
  so the next process starts from the registry this one ended with.
\<close>

lemma run_keeps_freshly_loaded:
  assumes "freshly_loaded st" and "run env cfg (Some fs) st = (r, st1)"
  shows "freshly_loaded st1" and "new_process st1 = st1"
proof -
  from assms(2) obtain r0 st0 n where
    loop: "run_loop env cfg (logger (Info_Found (length fs) (source_dir cfg)) (logger Info_Starting st)) 0 fs = (r0, st0, n)"
    and s: "same_db st1 st0"
    by (rule run_loop_of_run)
  from run_loop_write_through [OF loop] assms(1) have "freshly_loaded st0"
    by (auto simp: freshly_loaded_def)
  with s show "freshly_loaded st1"
    by (simp add: freshly_loaded_def same_db_def)
  then show "new_process st1 = st1"
    by (simp add: freshly_loaded_def new_process_def)
qed

text \<open>
  Where no two files share a base name the registry does gate the second run: after a
  first run that ended without an exception, a second run over the unchanged corpus, in
  the same process or in a new one, makes no call that adds vectors; every file is
  registered or had no chunks.
\<close>

lemma second_run_inserts_nothing:
  assumes "distinct (map (\<lambda>f. path_name (path f)) fs)"
    and "run env cfg (Some fs) st = (None, st1)"
  shows "calls (snd (run env cfg (Some fs) st1)) = calls st1 \<and>
         vectorstore (snd (run env cfg (Some fs) st1)) = vectorstore st1 \<and>
         registry (snd (run env cfg (Some fs) st1)) = registry st1 \<and>
         (\<forall>f\<in>set fs. settled env cfg (registry st1) f)"
proof -
  from assms(2) obtain st0 n where
    loop1: "run_loop env cfg (logger (Info_Found (length fs) (source_dir cfg)) (logger Info_Starting st)) 0 fs = (None, st0, n)"
    and s1: "same_db st1 st0"
    by (rule run_loop_of_run) auto
  have reg: "registry st0 = registry st1"
    using s1 by (simp add: same_db_def)
  have settled: "\<forall>f\<in>set fs. settled env cfg (registry st1) f"
    using run_loop_registers [OF loop1 assms(1)] reg by simp
  let ?start = "logger (Info_Found (length fs) (source_dir cfg)) (logger Info_Starting st1)"
  from settled have "\<forall>f\<in>set fs. settled env cfg (registry ?start) f"
    by simp
  from run_loop_quiescent [OF this, of 0] obtain st2 where
    loop2: "run_loop env cfg ?start 0 fs = (None, st2, 0)" and s2: "same_db st2 ?start"
    by blast
  obtain r st' where run2: "run env cfg (Some fs) st1 = (r, st')"
    by (cases "run env cfg (Some fs) st1")
  from run2 obtain r0 st0' n' where
    "run_loop env cfg ?start 0 fs = (r0, st0', n')" "same_db st' st0'"
    by (rule run_loop_of_run)
  with loop2 have "same_db st' st2"
    by simp
  with s2 have "same_db st' st1"
    by (auto simp: same_db_def)
  with run2 settled show ?thesis
    by (simp add: same_db_def)
qed

lemma second_process_inserts_nothing:
  assumes "distinct (map (\<lambda>f. path_name (path f)) fs)"
    and "freshly_loaded st"
    and "run env cfg (Some fs) st = (None, st1)"
  shows "calls (snd (run env cfg (Some fs) (new_process st1))) = calls st1"
  using second_run_inserts_nothing [OF assms(1,3)] run_keeps_freshly_loaded(2) [OF assms(2,3)]
  by simp

text \<open>
  C4. The claim fails on the code at a corpus with two files of one base name:
  \<open>bike_manuals/road/manual.pdf\<close> and \<open>bike_manuals/city/manual.pdf\<close>, of different
  contents, both listed by the recursive \<open>glob("**/*.pdf")\<close>. The registry is keyed by
  \<open>file_path.name\<close>, so each file overwrites the entry of the other. The first run, from
  an empty registry and an empty store, ends without an exception after two insertions;
  the second run, in a new process that loads the registry file over the unchanged
  corpus, finds neither file "already processed with the same hash" and inserts both
  again: four insertions in all.
\<close>

theorem same_name_files_are_inserted_again:
  "freshly_loaded fresh_state \<and>
   fst (run double_env IngestionConfig (Some [road_manual, city_manual]) fresh_state) = None \<and>
   insertions (calls (snd (run double_env IngestionConfig (Some [road_manual, city_manual]) fresh_state))) = 2 \<and>
   registry_on_disk (snd (run double_env IngestionConfig (Some [road_manual, city_manual]) fresh_state)) =
     Some [''manual.pdf'' \<mapsto> ''3e859fa52ccc1420ff84ba386b1b1a34''] \<and>
   fst (run double_env IngestionConfig (Some [road_manual, city_manual])
          (new_process (snd (run double_env IngestionConfig (Some [road_manual, city_manual]) fresh_state)))) = None \<and>
   insertions (calls (snd (run double_env IngestionConfig (Some [road_manual, city_manual])
      (new_process (snd (run double_env IngestionConfig (Some [road_manual, city_manual]) fresh_state)))))) = 4"
  by (simp add: run_eval freshly_loaded_def)

subsection \<open>A file without content\<close>

lemma clean_pages_all_short:
  "\<forall>d\<in>set pages. page_content d = [] \<or> length (strip (page_content d)) < 50 \<Longrightarrow>
   clean_pages p pages = []"
  by (induction pages) auto

lemma logger_all_single: "logger_all [e] st = logger e st"
  by (simp add: logger_all_def logger_def)

lemma logger_all_Nil: "logger_all [] st = st"
  by (simp add: logger_all_def)

text \<open>
  C2 (amended). For a source file whose pages are all empty or shorter than 50 characters
  after stripping (the splitter returning nothing for no pages), processing yields zero
  chunks; the loop body, reaching the file unregistered, logs "Processing" and "No valid
  content", inserts nothing and does not touch the registry. When no other file of the
  corpus has the same base name, the entry of the file is after the loop what it was
  before: a file that was not marked processed is still not marked processed, and so the
  next run processes it again.
\<close>

theorem no_content_file_stays_unregistered:
  assumes "f \<in> set fs"
    and "pdf_load env f = Inr pages"
    and "\<forall>d\<in>set pages. page_content d = [] \<or> length (strip (page_content d)) < 50"
    and "split_documents env (chunk_size cfg) (chunk_overlap cfg) (separators cfg) [] = []"
    and "\<forall>g\<in>set fs. path_name (path g) = path_name (path f) \<longrightarrow> g = f"
    and "run_loop env cfg st n fs = (r, st', n')"
  shows "process_file env cfg f = ([], []) \<and>
         (\<forall>s m h. calculate_file_hash env f = Inr h \<and>
                  \<not> is_processed (registry s) (path_name (path f)) h \<longrightarrow>
            ingest_file env cfg s m f =
              (None,
               logger (Warning_NoValidContent (path_name (path f)))
                 (logger (Info_Processing (path_name (path f))) s),
               m)) \<and>
         registry st' (path_name (path f)) = registry st (path_name (path f)) \<and>
         (\<forall>h. \<not> is_processed (registry st) (path_name (path f)) h \<longrightarrow>
              \<not> is_processed (registry st') (path_name (path f)) h)"
proof -
  have pf: "process_file env cfg f = ([], [])"
    using assms(2-4) by (simp add: process_file_def clean_pages_all_short)
  have step: "\<forall>s m h. calculate_file_hash env f = Inr h \<and>
                  \<not> is_processed (registry s) (path_name (path f)) h \<longrightarrow>
            ingest_file env cfg s m f =
              (None,
               logger (Warning_NoValidContent (path_name (path f)))
                 (logger (Info_Processing (path_name (path f))) s),
               m)"
    using pf by (auto simp: ingest_file_no_content logger_all_Nil)
  have keep: "registry st' (path_name (path f)) = registry st (path_name (path f))"
  proof (rule ccontr)
    assume "registry st' (path_name (path f)) \<noteq> registry st (path_name (path f))"
    from run_loop_registry_change [OF assms(6) this]
    obtain g where "g \<in> set fs" "path_name (path g) = path_name (path f)"
      "fst (process_file env cfg g) \<noteq> []"
      by blast
    with assms(5) pf show False
      by auto
  qed
  then have "\<forall>h. \<not> is_processed (registry st) (path_name (path f)) h \<longrightarrow>
              \<not> is_processed (registry st') (path_name (path f)) h"
    by (simp add: is_processed_def)
  with pf step keep show ?thesis
    by blast
qed

lemma double_split [simp]: "split_documents double_env = (\<lambda>size overlap seps docs. docs)"
  by (simp add: double_env_def)

lemma double_pdf_load [simp]: "pdf_load double_env = double_load"
  by (simp add: double_env_def)

text \<open>C2, witness: a manual with content and a file that holds only a cover page.\<close>

theorem no_content_file_stays_unregistered_witness:
  "process_file double_env IngestionConfig cover_only = ([], []) \<and>
   fst (run_loop double_env IngestionConfig fresh_state 0 [road_manual, cover_only]) = None \<and>
   registry (fst (snd (run_loop double_env IngestionConfig fresh_state 0 [road_manual, cover_only]))) ''cover.pdf'' = None \<and>
   \<not> is_processed (registry (fst (snd (run_loop double_env IngestionConfig fresh_state 0 [road_manual, cover_only]))))
        ''cover.pdf'' ''414ad3f25d7199cd9d8ecc993267da4e''"
proof -
  let ?fs = "[road_manual, cover_only]"
  let ?pages = "[\<lparr>page_content = ustr cover_text,
                   metadata = [(''source'', MStr ''bike_manuals/cover.pdf''), (''page'', MInt 0)]\<rparr>]"
  have a1: "cover_only \<in> set ?fs"
    by simp
  have a2: "pdf_load double_env cover_only = Inr ?pages"
    by (simp add: double_load_def cover_only_def cover_text_def corrupt_text_def)
  have h: "\<not> is_processed (registry fresh_state) ''cover.pdf'' ''414ad3f25d7199cd9d8ecc993267da4e''"
    by (simp add: is_processed_def fresh_state_def)
  have a3: "\<forall>d\<in>set ?pages. page_content d = [] \<or> length (strip (page_content d)) < 50"
    by (simp add: double_texts_strip) (simp add: ustr_def cover_text_def)
  have a4: "split_documents double_env (chunk_size IngestionConfig) (chunk_overlap IngestionConfig)
              (separators IngestionConfig) [] = []"
    by simp
  have a5: "\<forall>g\<in>set ?fs. path_name (path g) = path_name (path cover_only) \<longrightarrow> g = cover_only"
    by (simp add: double_names)
  have a7: "run_loop double_env IngestionConfig fresh_state 0 ?fs =
              (fst (run_loop double_env IngestionConfig fresh_state 0 ?fs),
               fst (snd (run_loop double_env IngestionConfig fresh_state 0 ?fs)),
               snd (snd (run_loop double_env IngestionConfig fresh_state 0 ?fs)))"
    by simp
  have ok: "fst (run_loop double_env IngestionConfig fresh_state 0 ?fs) = None"
    by (simp add: run_eval)
  from no_content_file_stays_unregistered [OF a1 a2 a3 a4 a5 a7] ok h
  show ?thesis
    by (simp add: double_names fresh_state_def)
qed

text \<open>
  C2 as stated fails: after a run over a corpus that holds only the cover-page file, the
  registry has no entry for it (and the registry file was not written), and the second
  run processes the file again instead of skipping it.
\<close>

theorem no_content_file_counterexample:
  "fst (process_file double_env IngestionConfig cover_only) = [] \<and>
   fst (run double_env IngestionConfig (Some [cover_only]) fresh_state) = None \<and>
   registry (snd (run double_env IngestionConfig (Some [cover_only]) fresh_state)) ''cover.pdf'' = None \<and>
   registry_on_disk (snd (run double_env IngestionConfig (Some [cover_only]) fresh_state)) = None \<and>
   processed_names (new_log (snd (run double_env IngestionConfig (Some [cover_only]) fresh_state))
      (snd (run double_env IngestionConfig (Some [cover_only])
         (snd (run double_env IngestionConfig (Some [cover_only]) fresh_state))))) = [''cover.pdf'']"
  by (simp add: run_eval new_log_def)

subsection \<open>A file that fails to load\<close>

lemma process_file_load_fails:
  "pdf_load env f = Inl e \<Longrightarrow> process_file env cfg f = ([], [Error_FailedToLoad (path f) e])"
  by (simp add: process_file_def)

lemma ingest_file_load_fails:
  assumes "pdf_load env f = Inl e" and "calculate_file_hash env f = Inr h"
  shows "fst (ingest_file env cfg st n f) = None"
    and "same_db (fst (snd (ingest_file env cfg st n f))) st"
    and "snd (snd (ingest_file env cfg st n f)) = n"
proof -
  have "fst (ingest_file env cfg st n f) = None \<and>
        same_db (fst (snd (ingest_file env cfg st n f))) st \<and>
        snd (snd (ingest_file env cfg st n f)) = n"
  proof (cases "is_processed (registry st) (path_name (path f)) h")
    case True
    with assms(2) show ?thesis
      by (simp add: ingest_file_skip)
  next
    case False
    with assms(2) show ?thesis
      using process_file_load_fails [OF assms(1)]
      by (simp add: ingest_file_no_content)
  qed
  then show "fst (ingest_file env cfg st n f) = None"
    and "same_db (fst (snd (ingest_file env cfg st n f))) st"
    and "snd (snd (ingest_file env cfg st n f)) = n"
    by simp_all
qed

lemma run_loop_same_db_eq:
  assumes "same_db st1 st2"
  shows "fst (run_loop env cfg st1 n fs) = fst (run_loop env cfg st2 n fs) \<and>
         same_db (fst (snd (run_loop env cfg st1 n fs))) (fst (snd (run_loop env cfg st2 n fs))) \<and>
         snd (snd (run_loop env cfg st1 n fs)) = snd (snd (run_loop env cfg st2 n fs))"
proof -
  obtain r st1' n' where a: "run_loop env cfg st1 n fs = (r, st1', n')"
    by (metis prod_cases3)
  from run_loop_same_db [OF a assms] obtain st2' where
    "run_loop env cfg st2 n fs = (r, st2', n')" "same_db st1' st2'"
    by blast
  with a show ?thesis
    by simp
qed

lemma run_loop_skip_bad_file:
  assumes "pdf_load env f = Inl e" and "calculate_file_hash env f = Inr h"
  shows "fst (run_loop env cfg st n (f # post)) = fst (run_loop env cfg st n post) \<and>
         same_db (fst (snd (run_loop env cfg st n (f # post)))) (fst (snd (run_loop env cfg st n post))) \<and>
         snd (snd (run_loop env cfg st n (f # post))) = snd (snd (run_loop env cfg st n post))"
proof -
  obtain r sa na where a: "ingest_file env cfg st n f = (r, sa, na)"
    by (metis prod_cases3)
  with ingest_file_load_fails [OF assms, of cfg st n]
  have "r = None" "same_db sa st" "na = n"
    by simp_all
  with a have "run_loop env cfg st n (f # post) = run_loop env cfg sa n post"
    by simp
  with run_loop_same_db_eq [OF \<open>same_db sa st\<close>, of env cfg n post] show ?thesis
    by simp
qed

text \<open>
  An exception of the loader is contained. When \<open>loader.load()\<close> raises on a file that
  could be read for hashing, \<open>process_file\<close> catches the exception, logs "Failed to load"
  and returns zero chunks; the loop body ends without an exception and leaves store,
  registry, registry file and call trace as they were; and the loop over a corpus that
  contains the file returns the same outcome, the same count and the same store and
  registry as the loop over the corpus without it.
\<close>

lemma load_failure_is_contained:
  assumes "pdf_load env f = Inl e" and "calculate_file_hash env f = Inr h"
  shows "process_file env cfg f = ([], [Error_FailedToLoad (path f) e]) \<and>
         (\<not> is_processed (registry st) (path_name (path f)) h \<longrightarrow>
            ingest_file env cfg st n f =
              (None,
               logger (Warning_NoValidContent (path_name (path f)))
                 (logger (Error_FailedToLoad (path f) e)
                    (logger (Info_Processing (path_name (path f))) st)),
               n)) \<and>
         fst (ingest_file env cfg st n f) = None \<and>
         same_db (fst (snd (ingest_file env cfg st n f))) st \<and>
         fst (run_loop env cfg st n (pre @ f # post)) = fst (run_loop env cfg st n (pre @ post)) \<and>
         same_db (fst (snd (run_loop env cfg st n (pre @ f # post))))
                 (fst (snd (run_loop env cfg st n (pre @ post)))) \<and>
         snd (snd (run_loop env cfg st n (pre @ f # post))) = snd (snd (run_loop env cfg st n (pre @ post)))"
proof -
  note pf = process_file_load_fails [OF assms(1), of cfg]
  have step: "\<not> is_processed (registry st) (path_name (path f)) h \<longrightarrow>
            ingest_file env cfg st n f =
              (None,
               logger (Warning_NoValidContent (path_name (path f)))
                 (logger (Error_FailedToLoad (path f) e)
                    (logger (Info_Processing (path_name (path f))) st)),
               n)"
    using pf assms(2) by (simp add: ingest_file_no_content logger_all_single)
  obtain r0 sa na where p: "run_loop env cfg st n pre = (r0, sa, na)"
    by (metis prod_cases3)
  have loop: "fst (run_loop env cfg st n (pre @ f # post)) = fst (run_loop env cfg st n (pre @ post)) \<and>
         same_db (fst (snd (run_loop env cfg st n (pre @ f # post))))
                 (fst (snd (run_loop env cfg st n (pre @ post)))) \<and>
         snd (snd (run_loop env cfg st n (pre @ f # post))) = snd (snd (run_loop env cfg st n (pre @ post)))"
  proof (cases r0)
    case None
    with p run_loop_skip_bad_file [OF assms, of cfg sa na post] show ?thesis
      by (simp add: run_loop_append)
  next
    case (Some x)
    with p show ?thesis
      by (simp add: run_loop_append)
  qed
  from pf step loop ingest_file_load_fails [OF assms, of cfg st n] show ?thesis
    by blast
qed

text \<open>
  C8. The claim fails on the code at a corpus in which one listed path cannot be opened:
  the valid manual \<open>road/manual.pdf\<close>, the dangling symbolic link \<open>broken.pdf\<close> and the
  valid manual \<open>trail.pdf\<close>. \<open>calculate_file_hash\<close> is called at line 171, before
  \<open>process_file\<close> and inside no \<open>try\<close>; the exception of \<open>open\<close> leaves the loop and
  \<open>run\<close>. Nothing is logged for the bad file, the manual after it is neither processed
  nor registered, and the validation is not reached, whereas the run over the two valid
  manuals alone registers both.
\<close>

theorem unreadable_file_aborts_the_run:
  "fst (run double_env IngestionConfig (Some [road_manual, broken_link, trail_manual]) fresh_state) =
     Some (PyException FileNotFoundError
             (ustr ''[Errno 2] No such file or directory: '' @ [39] @
              ustr ''bike_manuals/broken.pdf'' @ [39])) \<and>
   log (snd (run double_env IngestionConfig (Some [road_manual, broken_link, trail_manual]) fresh_state)) =
     [Info_Starting, Info_Found 3 ''bike_manuals'',
      Info_Processing ''manual.pdf'', Info_Added 1 ''manual.pdf''] \<and>
   insertions (calls (snd (run double_env IngestionConfig
      (Some [road_manual, broken_link, trail_manual]) fresh_state))) = 1 \<and>
   registry (snd (run double_env IngestionConfig (Some [road_manual, broken_link, trail_manual]) fresh_state))
     ''trail.pdf'' = None \<and>
   fst (run double_env IngestionConfig (Some [road_manual, trail_manual]) fresh_state) = None \<and>
   registry (snd (run double_env IngestionConfig (Some [road_manual, trail_manual]) fresh_state))
     ''trail.pdf'' = Some ''3086a723e786c5434038abcc05eb41b6''"
  by (simp add: run_eval IngestionConfig_def)

subsection \<open>Insertion before registration\<close>

lemma marks_follow_adds_Add:
  "marks_follow_adds P b \<Longrightarrow> marks_follow_adds P (AddDocuments docs r # b)"
  by (cases "(P, b)" rule: marks_follow_adds.cases) auto

lemma marks_follow_adds_append:
  "marks_follow_adds P a \<Longrightarrow> marks_follow_adds P b \<Longrightarrow> marks_follow_adds P (a @ b)"
  by (induction P a rule: marks_follow_adds.induct) (auto simp: marks_follow_adds_Add)

lemma marks_follow_adds_mono:
  "marks_follow_adds P cs \<Longrightarrow> (\<And>docs nm h. P docs nm h \<Longrightarrow> Q docs nm h) \<Longrightarrow> marks_follow_adds Q cs"
  by (induction P cs rule: marks_follow_adds.induct) auto

lemma new_calls_append: "calls st' = calls st @ new \<Longrightarrow> new_calls st st' = new"
  by (simp add: new_calls_def)

lemma ingest_file_calls:
  assumes "ingest_file env cfg st n f = (r, st', n')"
  shows "\<exists>new. calls st' = calls st @ new \<and>
               marks_follow_adds (chunks_of_corpus env cfg [f]) new \<and>
               (\<forall>nm. registry st' nm \<noteq> registry st nm \<longrightarrow> (\<exists>h. MarkProcessed nm h \<in> set new))"
  using assms
proof (cases rule: ingest_file_cases)
  case (unreadable e)
  then show ?thesis by simp
next
  case (skip h)
  then show ?thesis by simp
next
  case (no_content h logged)
  then show ?thesis by simp
next
  case (add_fails h docs logged e vs')
  then show ?thesis by simp
next
  case (added h docs logged vs')
  then show ?thesis
    by (auto simp: chunks_of_corpus_def)
qed

lemma run_loop_calls:
  assumes "run_loop env cfg st n fs = (r, st', n')"
  shows "\<exists>new. calls st' = calls st @ new \<and>
               marks_follow_adds (chunks_of_corpus env cfg fs) new \<and>
               (\<forall>nm. registry st' nm \<noteq> registry st nm \<longrightarrow> (\<exists>h. MarkProcessed nm h \<in> set new))"
  using assms
proof (induction fs arbitrary: st n)
  case Nil
  then show ?case by simp
next
  case (Cons f fs)
  obtain r0 sa na where a: "ingest_file env cfg st n f = (r0, sa, na)"
    by (metis prod_cases3)
  from ingest_file_calls [OF a] obtain new1 where
    c1: "calls sa = calls st @ new1"
    and m1: "marks_follow_adds (chunks_of_corpus env cfg [f]) new1"
    and g1: "\<forall>nm. registry sa nm \<noteq> registry st nm \<longrightarrow> (\<exists>h. MarkProcessed nm h \<in> set new1)"
    by blast
  have m1': "marks_follow_adds (chunks_of_corpus env cfg (f # fs)) new1"
    using m1 by (rule marks_follow_adds_mono) (simp add: chunks_of_corpus_def)
  show ?case
  proof (cases r0)
    case (Some e)
    with a Cons.prems have "st' = sa"
      by simp
    with c1 m1' g1 show ?thesis
      by blast
  next
    case None
    with a Cons.prems have "run_loop env cfg sa na fs = (r, st', n')"
      by simp
    from Cons.IH [OF this] obtain new2 where
      c2: "calls st' = calls sa @ new2"
      and m2: "marks_follow_adds (chunks_of_corpus env cfg fs) new2"
      and g2: "\<forall>nm. registry st' nm \<noteq> registry sa nm \<longrightarrow> (\<exists>h. MarkProcessed nm h \<in> set new2)"
      by blast
    have m2': "marks_follow_adds (chunks_of_corpus env cfg (f # fs)) new2"
      using m2 by (rule marks_follow_adds_mono) (simp add: chunks_of_corpus_def)
    have "calls st' = calls st @ (new1 @ new2)"
      using c1 c2 by simp
    moreover have "marks_follow_adds (chunks_of_corpus env cfg (f # fs)) (new1 @ new2)"
      using m1' m2' by (rule marks_follow_adds_append)
    moreover have "\<forall>nm. registry st' nm \<noteq> registry st nm \<longrightarrow> (\<exists>h. MarkProcessed nm h \<in> set (new1 @ new2))"
    proof (intro allI impI)
      fix nm
      assume "registry st' nm \<noteq> registry st nm"
      then have "registry st' nm \<noteq> registry sa nm \<or> registry sa nm \<noteq> registry st nm"
        by auto
      with g1 g2 show "\<exists>h. MarkProcessed nm h \<in> set (new1 @ new2)"
        by auto
    qed
    ultimately show ?thesis
      by blast
  qed
qed

text \<open>An insertion that raises ends the loop at that file, the registry as it was.\<close>

lemma run_loop_insertion_raises:
  assumes "fs = pre @ f # post"
    and "run_loop env cfg st n pre = (None, st_f, n_f)"
    and "calculate_file_hash env f = Inr h"
    and "\<not> is_processed (registry st_f) (path_name (path f)) h"
    and "fst (process_file env cfg f) \<noteq> []"
    and "vs_add_documents env (vectorstore st_f) (fst (process_file env cfg f)) = (Some e, vs')"
    and "run_loop env cfg st n fs = (r, st', n')"
  shows "r = Some e \<and> registry st' = registry st_f \<and> registry_on_disk st' = registry_on_disk st_f \<and>
         \<not> is_processed (registry st') (path_name (path f)) h"
proof -
  obtain docs logged where pf: "process_file env cfg f = (docs, logged)"
    by (cases "process_file env cfg f")
  with assms(5,6) have "docs \<noteq> []" "vs_add_documents env (vectorstore st_f) docs = (Some e, vs')"
    by simp_all
  from ingest_file_add_fails [OF assms(3,4) pf this, of n_f]
  have step: "ingest_file env cfg st_f n_f f =
      (Some e,
       (logger_all logged (logger (Info_Processing (path_name (path f))) st_f))
         \<lparr>vectorstore := vs', calls := calls st_f @ [AddDocuments docs (Some e)]\<rparr>,
       n_f)" .
  have "run_loop env cfg st n fs =
      (Some e,
       (logger_all logged (logger (Info_Processing (path_name (path f))) st_f))
         \<lparr>vectorstore := vs', calls := calls st_f @ [AddDocuments docs (Some e)]\<rparr>,
       n_f)"
    using assms(1,2) step by (simp add: run_loop_append)
  with assms(7) have "r = Some e" and
    "st' = (logger_all logged (logger (Info_Processing (path_name (path f))) st_f))
              \<lparr>vectorstore := vs', calls := calls st_f @ [AddDocuments docs (Some e)]\<rparr>"
    by auto
  with assms(4) show ?thesis
    by simp
qed

text \<open>A loop that ends with an exception: where it came from, and the registry there.\<close>

lemma run_loop_failure:
  assumes "run_loop env cfg st n fs = (Some e, st', n')"
  shows "\<exists>pre f post st_f n_f.
           fs = pre @ f # post \<and>
           run_loop env cfg st n pre = (None, st_f, n_f) \<and>
           registry st' = registry st_f \<and> registry_on_disk st' = registry_on_disk st_f \<and>
           (calculate_file_hash env f = Inl e \<or>
            (\<exists>h vs'. calculate_file_hash env f = Inr h \<and>
               \<not> is_processed (registry st_f) (path_name (path f)) h \<and>
               fst (process_file env cfg f) \<noteq> [] \<and>
               vs_add_documents env (vectorstore st_f) (fst (process_file env cfg f)) = (Some e, vs') \<and>
               \<not> is_processed (registry st') (path_name (path f)) h))"
  using assms
proof (induction fs arbitrary: st n)
  case Nil
  then show ?case by simp
next
  case (Cons g fs)
  obtain r0 sa na where a: "ingest_file env cfg st n g = (r0, sa, na)"
    by (metis prod_cases3)
  show ?case
  proof (cases r0)
    case None
    with a Cons.prems have "run_loop env cfg sa na fs = (Some e, st', n')"
      by simp
    from Cons.IH [OF this] obtain pre f post st_f n_f where
      d: "fs = pre @ f # post" "run_loop env cfg sa na pre = (None, st_f, n_f)"
      and k: "registry st' = registry st_f" "registry_on_disk st' = registry_on_disk st_f"
      and c: "calculate_file_hash env f = Inl e \<or>
            (\<exists>h vs'. calculate_file_hash env f = Inr h \<and>
               \<not> is_processed (registry st_f) (path_name (path f)) h \<and>
               fst (process_file env cfg f) \<noteq> [] \<and>
               vs_add_documents env (vectorstore st_f) (fst (process_file env cfg f)) = (Some e, vs') \<and>
               \<not> is_processed (registry st') (path_name (path f)) h)"
      by blast
    from d a None have "g # fs = (g # pre) @ f # post" "run_loop env cfg st n (g # pre) = (None, st_f, n_f)"
      by simp_all
    with k c show ?thesis
      by blast
  next
    case (Some x)
    with a Cons.prems have eq: "x = e" "st' = sa"
      by simp_all
    from a have
      "registry st' = registry st \<and> registry_on_disk st' = registry_on_disk st \<and>
       (calculate_file_hash env g = Inl e \<or>
        (\<exists>h vs'. calculate_file_hash env g = Inr h \<and>
           \<not> is_processed (registry st) (path_name (path g)) h \<and>
           fst (process_file env cfg g) \<noteq> [] \<and>
           vs_add_documents env (vectorstore st) (fst (process_file env cfg g)) = (Some e, vs') \<and>
           \<not> is_processed (registry st') (path_name (path g)) h))"
      using Some eq by (cases rule: ingest_file_cases) simp_all
    moreover have "g # fs = [] @ g # fs" "run_loop env cfg st n [] = (None, st, n)"
      by simp_all
    ultimately show ?thesis
      by blast
  qed
qed

text \<open>
  C5. In every run of the loop, each \<open>mark_processed\<close> call directly follows an
  \<open>add_documents\<close> call that returned without an exception and that carried the chunks
  of a corpus file with the marked name and digest; a registry entry changes only through
  such a call. If the insertion of a file's chunks raises, the exception leaves the loop
  at once: the registry in memory and on disk is as it was when the file was reached, and
  the file is still not marked processed, so the next run processes it again. Whatever
  exception ends the loop (an insertion that raised, or a file that could not be read
  for hashing), the registry in memory and on disk is as it was when that file was reached.
\<close>

theorem registry_updated_only_after_insertion:
  assumes "run_loop env cfg st n fs = (r, st', n')"
  shows "calls st' = calls st @ new_calls st st' \<and>
         marks_follow_adds (chunks_of_corpus env cfg fs) (new_calls st st') \<and>
         (\<forall>nm. registry st' nm \<noteq> registry st nm \<longrightarrow> (\<exists>h. MarkProcessed nm h \<in> set (new_calls st st'))) \<and>
         (\<forall>pre f post st_f n_f h e vs'.
            fs = pre @ f # post \<and>
            run_loop env cfg st n pre = (None, st_f, n_f) \<and>
            calculate_file_hash env f = Inr h \<and>
            \<not> is_processed (registry st_f) (path_name (path f)) h \<and>
            fst (process_file env cfg f) \<noteq> [] \<and>
            vs_add_documents env (vectorstore st_f) (fst (process_file env cfg f)) = (Some e, vs') \<longrightarrow>
            r = Some e \<and> registry st' = registry st_f \<and> registry_on_disk st' = registry_on_disk st_f \<and>
            \<not> is_processed (registry st') (path_name (path f)) h) \<and>
         (\<forall>e. r = Some e \<longrightarrow>
            (\<exists>pre f post st_f n_f.
               fs = pre @ f # post \<and>
               run_loop env cfg st n pre = (None, st_f, n_f) \<and>
               registry st' = registry st_f \<and> registry_on_disk st' = registry_on_disk st_f \<and>
               (calculate_file_hash env f = Inl e \<or>
                (\<exists>h vs'. calculate_file_hash env f = Inr h \<and>
                   \<not> is_processed (registry st_f) (path_name (path f)) h \<and>
                   fst (process_file env cfg f) \<noteq> [] \<and>
                   vs_add_documents env (vectorstore st_f) (fst (process_file env cfg f)) = (Some e, vs') \<and>
                   \<not> is_processed (registry st') (path_name (path f)) h))))"
proof -
  from run_loop_calls [OF assms] obtain new where
    c: "calls st' = calls st @ new"
    and m: "marks_follow_adds (chunks_of_corpus env cfg fs) new"
    and g: "\<forall>nm. registry st' nm \<noteq> registry st nm \<longrightarrow> (\<exists>h. MarkProcessed nm h \<in> set new)"
    by blast
  from c have n: "new_calls st st' = new"
    by (rule new_calls_append)
  have raises: "\<forall>pre f post st_f n_f h e vs'.
            fs = pre @ f # post \<and>
            run_loop env cfg st n pre = (None, st_f, n_f) \<and>
            calculate_file_hash env f = Inr h \<and>
            \<not> is_processed (registry st_f) (path_name (path f)) h \<and>
            fst (process_file env cfg f) \<noteq> [] \<and>
            vs_add_documents env (vectorstore st_f) (fst (process_file env cfg f)) = (Some e, vs') \<longrightarrow>
            r = Some e \<and> registry st' = registry st_f \<and> registry_on_disk st' = registry_on_disk st_f \<and>
            \<not> is_processed (registry st') (path_name (path f)) h"
    using run_loop_insertion_raises [where r = r and st' = st' and n' = n', OF _ _ _ _ _ _ assms]
    by blast
  have ended: "\<forall>e. r = Some e \<longrightarrow>
            (\<exists>pre f post st_f n_f.
               fs = pre @ f # post \<and>
               run_loop env cfg st n pre = (None, st_f, n_f) \<and>
               registry st' = registry st_f \<and> registry_on_disk st' = registry_on_disk st_f \<and>
               (calculate_file_hash env f = Inl e \<or>
                (\<exists>h vs'. calculate_file_hash env f = Inr h \<and>
                   \<not> is_processed (registry st_f) (path_name (path f)) h \<and>
                   fst (process_file env cfg f) \<noteq> [] \<and>
                   vs_add_documents env (vectorstore st_f) (fst (process_file env cfg f)) = (Some e, vs') \<and>
                   \<not> is_processed (registry st') (path_name (path f)) h)))"
    using run_loop_failure [of env cfg st n fs _ st' n'] assms by blast
  from c m g n raises ended show ?thesis
    by simp
qed

lemma flaky_env_sel [simp]:
  "vs_add_documents flaky_env =
     (\<lambda>vs docs. if vs = [] then (None, vs @ docs)
                 else (Some (PyException RuntimeError (ustr ''database is locked'')), vs))"
  "process_file flaky_env = process_file double_env"
  "calculate_file_hash flaky_env = calculate_file_hash double_env"
  by (simp_all add: flaky_env_def double_env_def process_file_def calculate_file_hash_def fun_eq_iff
      split: sum.splits)

text \<open>
  C5, witness: the store accepts the road manual and raises on the trail manual; the
  first is registered after its insertion, the second is not registered.
\<close>

theorem registry_updated_only_after_insertion_witness:
  "fst (run_loop flaky_env IngestionConfig fresh_state 0 [road_manual, trail_manual]) =
     Some (PyException RuntimeError (ustr ''database is locked'')) \<and>
   marks_follow_adds (chunks_of_corpus flaky_env IngestionConfig [road_manual, trail_manual])
     (new_calls fresh_state
        (fst (snd (run_loop flaky_env IngestionConfig fresh_state 0 [road_manual, trail_manual])))) \<and>
   insertions (calls (fst (snd (run_loop flaky_env IngestionConfig fresh_state 0 [road_manual, trail_manual])))) = 2 \<and>
   registry (fst (snd (run_loop flaky_env IngestionConfig fresh_state 0 [road_manual, trail_manual])))
     ''manual.pdf'' = Some ''7ca3b8ba27f2a912d47b8cb7565fea73'' \<and>
   registry (fst (snd (run_loop flaky_env IngestionConfig fresh_state 0 [road_manual, trail_manual])))
     ''trail.pdf'' = None"
proof -
  let ?res = "run_loop flaky_env IngestionConfig fresh_state 0 [road_manual, trail_manual]"
  have eq: "?res = (fst ?res, fst (snd ?res), snd (snd ?res))"
    by (simp only: prod.collapse)
  from registry_updated_only_after_insertion [OF eq]
  have m: "marks_follow_adds (chunks_of_corpus flaky_env IngestionConfig [road_manual, trail_manual])
             (new_calls fresh_state (fst (snd ?res)))"
    by blast
  have r: "fst ?res = Some (PyException RuntimeError (ustr ''database is locked''))"
    by (simp add: run_eval)
  have i: "insertions (calls (fst (snd ?res))) = 2"
    by (simp add: run_eval)
  have g1: "registry (fst (snd ?res)) ''manual.pdf'' = Some ''7ca3b8ba27f2a912d47b8cb7565fea73''"
    by (simp add: run_eval)
  have g2: "registry (fst (snd ?res)) ''trail.pdf'' = None"
    by (simp add: run_eval)
  from m r i g1 g2 show ?thesis
    by (simp only: simp_thms)
qed

subsection \<open>Change detection\<close>

lemma processed_names_append:
  "processed_names (a @ b) = processed_names a @ processed_names b"
  by (induction a rule: processed_names.induct) auto

lemma new_log_append: "log st' = log st @ es \<Longrightarrow> new_log st st' = es"
  by (simp add: new_log_def)

lemma process_file_logs_no_processing:
  "processed_names (snd (process_file env cfg f)) = []"
  by (simp add: process_file_def split: sum.splits)

lemma ingest_file_skip_log:
  assumes "registered env (registry st) f"
  shows "\<exists>st'. ingest_file env cfg st n f = (None, st', n) \<and> same_db st' st \<and>
               (\<exists>es. log st' = log st @ es \<and> processed_names es = [])"
proof (cases "calculate_file_hash env f")
  case (Inl e)
  with assms show ?thesis
    by (simp add: registered_Inl)
next
  case (Inr h)
  with assms show ?thesis
    by (simp add: registered_Inr ingest_file_skip)
qed

lemma ingest_file_changed_log:
  assumes "calculate_file_hash env f = Inr h"
    and "\<not> is_processed (registry st) (path_name (path f)) h"
    and "ingest_file env cfg st n f = (r, st', n')"
  shows "(\<exists>es. log st' = log st @ es \<and> processed_names es = [path_name (path f)]) \<and>
         (\<forall>k. k \<noteq> path_name (path f) \<longrightarrow> registry st' k = registry st k)"
  using assms(3)
proof (cases rule: ingest_file_cases)
  case (unreadable e)
  with assms(1) show ?thesis by simp
next
  case (skip h')
  with assms(1,2) show ?thesis by simp
next
  case (no_content h' logged)
  with process_file_logs_no_processing [of env cfg f] show ?thesis
    by (simp add: processed_names_append)
next
  case (add_fails h' docs logged e vs')
  with process_file_logs_no_processing [of env cfg f] show ?thesis
    by (simp add: processed_names_append)
next
  case (added h' docs logged vs')
  with process_file_logs_no_processing [of env cfg f] show ?thesis
    by (simp add: processed_names_append)
qed

lemma registered_cong:
  "(\<And>k. reg' k = reg k) \<Longrightarrow> registered env reg' f = registered env reg f"
  by (simp add: registered_def is_processed_def split: sum.splits)

lemma run_loop_all_skipped:
  assumes "\<forall>g\<in>set fs. registered env (registry st) g"
  shows "\<exists>st'. run_loop env cfg st n fs = (None, st', n) \<and> same_db st' st \<and>
               (\<exists>es. log st' = log st @ es \<and> processed_names es = [])"
  using assms
proof (induction fs arbitrary: st)
  case Nil
  then show ?case by simp
next
  case (Cons g fs)
  from Cons.prems have "registered env (registry st) g"
    by simp
  from ingest_file_skip_log [OF this, of cfg n] obtain sa es1 where
    a: "ingest_file env cfg st n g = (None, sa, n)" and s: "same_db sa st"
    and l: "log sa = log st @ es1" "processed_names es1 = []"
    by blast
  from s Cons.prems have
    "\<forall>g\<in>set fs. registered env (registry sa) g"
    by (simp add: same_db_def)
  from Cons.IH [OF this] obtain st' es2 where
    b: "run_loop env cfg sa n fs = (None, st', n)" and s': "same_db st' sa"
    and l': "log st' = log sa @ es2" "processed_names es2 = []"
    by blast
  have "log st' = log st @ (es1 @ es2)" "processed_names (es1 @ es2) = []"
    using l l' by (simp_all add: processed_names_append)
  moreover have "same_db st' st"
    using s s' by (rule same_db_trans [rotated])
  moreover have "run_loop env cfg st n (g # fs) = (None, st', n)"
    using a b by simp
  ultimately show ?case
    by blast
qed

lemma run_loop_one_changed:
  assumes pre: "\<forall>g\<in>set pre. registered env (registry st) g"
    and post: "\<forall>g\<in>set post. registered env (registry st) g \<and>
                              path_name (path g) \<noteq> path_name (path f)"
    and readable: "calculate_file_hash env f = Inr h"
    and changed: "\<not> is_processed (registry st) (path_name (path f)) h"
    and loop: "run_loop env cfg st n (pre @ f # post) = (r, st', n')"
  shows "\<exists>es. log st' = log st @ es \<and> processed_names es = [path_name (path f)]"
proof -
  from run_loop_all_skipped [OF pre, of cfg n] obtain sa es1 where
    a: "run_loop env cfg st n pre = (None, sa, n)" and sa: "same_db sa st"
    and la: "log sa = log st @ es1" "processed_names es1 = []"
    by blast
  obtain r1 sb nb where b: "ingest_file env cfg sa n f = (r1, sb, nb)"
    by (metis prod_cases3)
  from sa changed have "\<not> is_processed (registry sa) (path_name (path f)) h"
    by (simp add: same_db_def)
  from ingest_file_changed_log [OF readable this b] obtain es2 where
    lb: "log sb = log sa @ es2" "processed_names es2 = [path_name (path f)]"
    and rb: "\<forall>k. k \<noteq> path_name (path f) \<longrightarrow> registry sb k = registry sa k"
    by blast
  show ?thesis
  proof (cases r1)
    case (Some e)
    with a b loop have "st' = sb"
      by (simp add: run_loop_append)
    with la lb have "log st' = log st @ (es1 @ es2)" "processed_names (es1 @ es2) = [path_name (path f)]"
      by (simp_all add: processed_names_append)
    then show ?thesis
      by blast
  next
    case None
    with a b loop have rest: "run_loop env cfg sb nb post = (r, st', n')"
      by (simp add: run_loop_append)
    have "\<forall>g\<in>set post. registered env (registry sb) g"
      using post rb sa
      by (auto simp: same_db_def registered_def is_processed_def split: sum.splits)
    from run_loop_all_skipped [OF this, of cfg nb] rest obtain es3 where
      "log st' = log sb @ es3" "processed_names es3 = []"
      by auto
    with la lb have "log st' = log st @ (es1 @ es2 @ es3)"
      "processed_names (es1 @ es2 @ es3) = [path_name (path f)]"
      by (simp_all add: processed_names_append)
    then show ?thesis
      by blast
  qed
qed

lemma validate_log:
  "\<exists>es. log (snd (validate env st)) = log st @ es \<and> processed_names es = []"
  by (simp add: validate_def Let_def split: sum.splits list.splits)

lemma run_log:
  assumes "run env cfg (Some fs) st = (r, st')"
    and "run_loop env cfg (logger (Info_Found (length fs) (source_dir cfg)) (logger Info_Starting st)) 0 fs = (r0, st0, n)"
    and "log st0 = log (logger (Info_Found (length fs) (source_dir cfg)) (logger Info_Starting st)) @ es"
  shows "\<exists>es'. log st' = log st @ es' \<and> processed_names es' = processed_names es"
proof (cases r0)
  case (Some e)
  with assms have "st' = st0"
    by (simp add: run_def Let_def)
  with assms(3) have "log st' = log st @ ([Info_Starting, Info_Found (length fs) (source_dir cfg)] @ es)"
    by simp
  moreover have "processed_names ([Info_Starting, Info_Found (length fs) (source_dir cfg)] @ es) = processed_names es"
    by simp
  ultimately show ?thesis
    by blast
next
  case None
  let ?done = "logger (if 0 < n then Info_CompleteTotal n else Info_CompleteNone) st0"
  from None assms have st': "st' = snd (validate env ?done)"
    by (simp add: run_def Let_def)
  from validate_log [of env ?done] obtain ev where
    "log (snd (validate env ?done)) = log ?done @ ev" "processed_names ev = []"
    by blast
  with st' assms(3) have
    "log st' = log st @ ([Info_Starting, Info_Found (length fs) (source_dir cfg)] @ es @
                 [if 0 < n then Info_CompleteTotal n else Info_CompleteNone] @ ev)"
    "processed_names ([Info_Starting, Info_Found (length fs) (source_dir cfg)] @ es @
                 [if 0 < n then Info_CompleteTotal n else Info_CompleteNone] @ ev) = processed_names es"
    by (simp_all add: processed_names_append)
  then show ?thesis
    by blast
qed

text \<open>
  Where no two files share a base name and every file yields at least one chunk, the
  registry does single out a changed file: after a run that ended without an exception,
  replacing the content of one file by a content with a different digest makes the next
  run announce exactly that file as processed; every other file that it reaches is
  skipped.
\<close>

lemma changed_file_alone_is_processed:
  assumes "distinct (map (\<lambda>g. path_name (path g)) (pre @ f # post))"
    and "\<forall>g\<in>set (pre @ f # post). fst (process_file env cfg g) \<noteq> []"
    and "run env cfg (Some (pre @ f # post)) st = (None, st1)"
    and "path f' = path f"
    and "calculate_file_hash env f = Inr h" and "calculate_file_hash env f' = Inr h'"
    and "h' \<noteq> h"
  shows "processed_names (new_log st1 (snd (run env cfg (Some (pre @ f' # post)) st1))) =
           [path_name (path f)]"
proof -
  let ?fs = "pre @ f # post"
  let ?fs' = "pre @ f' # post"
  from assms(3) obtain st0 n where
    loop1: "run_loop env cfg (logger (Info_Found (length ?fs) (source_dir cfg)) (logger Info_Starting st)) 0 ?fs = (None, st0, n)"
    and s1: "same_db st1 st0"
    by (rule run_loop_of_run) auto
  have reg: "registry st0 = registry st1"
    using s1 by (simp add: same_db_def)
  have current: "\<forall>g\<in>set ?fs. registered env (registry st1) g"
  proof
    fix g
    assume g: "g \<in> set ?fs"
    from run_loop_registers [OF loop1 assms(1) g] reg assms(2) g
    show "registered env (registry st1) g"
      by (auto simp: settled_def registered_def split: sum.splits)
  qed
  let ?start = "logger (Info_Found (length ?fs') (source_dir cfg)) (logger Info_Starting st1)"
  have pre: "\<forall>g\<in>set pre. registered env (registry ?start) g"
    using current by simp
  have post: "\<forall>g\<in>set post. registered env (registry ?start) g \<and>
                              path_name (path g) \<noteq> path_name (path f')"
    using current assms(1,4) by (auto simp: image_iff)
  have "registered env (registry st1) f"
    using current by simp
  with assms(4-7) have changed:
    "\<not> is_processed (registry ?start) (path_name (path f')) h'"
    by (simp add: registered_Inr is_processed_def)
  obtain r2 st2 where run2: "run env cfg (Some ?fs') st1 = (r2, st2)"
    by (cases "run env cfg (Some ?fs') st1")
  obtain ra sa na where loop2: "run_loop env cfg ?start 0 ?fs' = (ra, sa, na)"
    by (metis prod_cases3)
  from run_loop_one_changed [OF pre post assms(6) changed loop2] obtain es where
    es: "log sa = log ?start @ es" "processed_names es = [path_name (path f')]"
    by blast
  from run_log [OF run2 loop2 es(1)] es(2) obtain es' where
    "log st2 = log st1 @ es'" "processed_names es' = [path_name (path f')]"
    by auto
  then have "processed_names (new_log st1 st2) = [path_name (path f')]"
    by (simp add: new_log_append)
  with run2 assms(4) show ?thesis
    by simp
qed

text \<open>
  C3. The claim fails on the code at a corpus with two files of one base name:
  \<open>bike_manuals/road/manual.pdf\<close>, \<open>bike_manuals/city/manual.pdf\<close> and
  \<open>bike_manuals/trail.pdf\<close>, of different contents, all listed by the recursive
  \<open>glob("**/*.pdf")\<close>. The first run, from an empty registry and an empty store, ends
  without an exception. Then the last byte of \<open>trail.pdf\<close> changes, and with it the
  digest. The next run, in a new process that loads the registry file, ingests not that
  file alone: the registry is keyed by \<open>file_path.name\<close>, the two unchanged manuals have
  overwritten each other's entry, and all three files are processed and inserted again.
\<close>

theorem same_name_files_are_ingested_with_the_changed_file:
  "fst (run double_env IngestionConfig (Some [road_manual, city_manual, trail_manual]) fresh_state) = None \<and>
   insertions (calls (snd (run double_env IngestionConfig
      (Some [road_manual, city_manual, trail_manual]) fresh_state))) = 3 \<and>
   path trail_manual_mutated = path trail_manual \<and>
   calculate_file_hash double_env trail_manual = Inr ''3086a723e786c5434038abcc05eb41b6'' \<and>
   calculate_file_hash double_env trail_manual_mutated = Inr ''37fd1cee59963f568a0909b931540c9c'' \<and>
   processed_names
     (new_log (snd (run double_env IngestionConfig (Some [road_manual, city_manual, trail_manual]) fresh_state))
        (snd (run double_env IngestionConfig (Some [road_manual, city_manual, trail_manual_mutated])
               (new_process (snd (run double_env IngestionConfig
                  (Some [road_manual, city_manual, trail_manual]) fresh_state)))))) =
     [''manual.pdf'', ''manual.pdf'', ''trail.pdf''] \<and>
   insertions (calls (snd (run double_env IngestionConfig (Some [road_manual, city_manual, trail_manual_mutated])
      (new_process (snd (run double_env IngestionConfig
         (Some [road_manual, city_manual, trail_manual]) fresh_state)))))) = 6"
proof -
  have p: "path trail_manual_mutated = path trail_manual"
    by (simp add: trail_manual_def trail_manual_mutated_def)
  show ?thesis
    unfolding p by (simp add: run_eval new_log_def)
qed

subsection \<open>Loading the registry\<close>

text \<open>
  C6 (amended). When the registry file is absent, or is present, can be read as text and
  is not valid JSON (the parser raises \<open>JSONDecodeError\<close>), loading yields the empty
  registry and no exception.
\<close>

theorem load_registry_absent_or_malformed:
  assumes "\<not> path_exists io (registry_file cfg) \<or>
           (\<exists>text msg. read_text io (registry_file cfg) = Inr text \<and>
                       json_loads io text = Inl (PyException JSONDecodeError msg))"
  shows "load_registry io cfg = Inr Map.empty"
  using assms by (auto simp: load_registry_def)

text \<open>C6, witness: the truncated JSON text.\<close>

theorem load_registry_absent_or_malformed_witness:
  "path_exists truncated_registry_io (registry_file IngestionConfig) \<and>
   read_text truncated_registry_io (registry_file IngestionConfig) =
     Inr ([123, 34] @ ustr ''a.pdf'' @ [34, 58, 32]) \<and>
   json_loads truncated_registry_io ([123, 34] @ ustr ''a.pdf'' @ [34, 58, 32]) =
     Inl (PyException JSONDecodeError (ustr ''Expecting value'')) \<and>
   load_registry truncated_registry_io IngestionConfig = Inr Map.empty"
proof -
  have a: "read_text truncated_registry_io (registry_file IngestionConfig) =
             Inr ([123, 34] @ ustr ''a.pdf'' @ [34, 58, 32])"
    and b: "json_loads truncated_registry_io ([123, 34] @ ustr ''a.pdf'' @ [34, 58, 32]) =
             Inl (PyException JSONDecodeError (ustr ''Expecting value''))"
    and c: "path_exists truncated_registry_io (registry_file IngestionConfig)"
    by (simp_all add: truncated_registry_io_def)
  from a b have "\<not> path_exists truncated_registry_io (registry_file IngestionConfig) \<or>
           (\<exists>text msg. read_text truncated_registry_io (registry_file IngestionConfig) = Inr text \<and>
                       json_loads truncated_registry_io text = Inl (PyException JSONDecodeError msg))"
    by blast
  from load_registry_absent_or_malformed [OF this] a b c show ?thesis
    by (simp only: simp_thms)
qed

text \<open>
  C6 as stated fails: a registry file whose bytes cannot be decoded makes \<open>f.read()\<close>
  raise \<open>UnicodeDecodeError\<close> inside the \<open>try\<close> block; the handler catches
  \<open>json.JSONDecodeError\<close> only, so the exception reaches the caller.
\<close>

theorem load_registry_counterexample:
  "path_exists garbled_registry_io (registry_file IngestionConfig) \<and>
   load_registry garbled_registry_io IngestionConfig =
     Inl (PyException UnicodeDecodeError (ustr ''invalid start byte''))"
  by (simp add: load_registry_def garbled_registry_io_def)

section \<open>Properties of the answering operation\<close>

lemma get_answer_init_fails:
  assumes "vector_store g = None" and "initialize_rag env g = (Some e, g1)"
  shows "get_answer env g question =
           (Inr \<lparr>result = ustr ''System Error: Failed to initialize RAG pipeline. '' @ str_of e,
                 source_documents = []\<rparr>, g1)"
  using assms by (simp add: get_answer_def)

lemma get_answer_question_not_printed:
  assumes "(if vector_store g = None then initialize_rag env g else (None, g)) = (None, g1)"
    and "console_print env (ustr ''Question: '' @ question) = Some e"
  shows "get_answer env g question = (Inl e, g1)"
  using assms by (simp add: get_answer_def)

lemma get_answer_chain:
  assumes "(if vector_store g = None then initialize_rag env g else (None, g)) = (None, g1)"
    and "console_print env (ustr ''Question: '' @ question) = None"
  shows "get_answer env g question =
           (case run_chain env g1 question of
              (Inr a, g2) \<Rightarrow> (Inr a, g2)
            | (Inl e, g2) \<Rightarrow> chain_handler env e g2)"
  using assms by (simp add: get_answer_def)

lemma run_chain_retrieval_fails:
  assumes "console_print env (ustr ''Retrieving documents...'') = None"
    and "vector_store g = Some store" and "similarity_search env store question 4 = Inl e"
  shows "run_chain env g question = (Inl e, g)"
  using assms by (simp add: run_chain_def)

lemma run_chain_retrieved:
  assumes "console_print env (ustr ''Retrieving documents...'') = None"
    and "console_print env (ustr ''Generating answer...'') = None"
    and "vector_store g = Some store" and "similarity_search env store question 4 = Inr docs"
  shows "run_chain env g question =
           (case PROMPT g of
              None \<Rightarrow> (Inl (none_has_no_attribute ''format''), g)
            | Some prompt \<Rightarrow>
                (case llm g of
                   None \<Rightarrow> (Inl (none_has_no_attribute ''invoke''), g)
                 | Some model \<Rightarrow>
                     (case llm_invoke env model
                             (prompt_format prompt (str_join [10, 10] (map page_content docs)) question) of
                        Inl e \<Rightarrow> Inl e
                      | Inr result_text \<Rightarrow> Inr \<lparr>result = result_text, source_documents = docs\<rparr>,
                      g\<lparr>invocations := invocations g @
                           [prompt_format prompt (str_join [10, 10] (map page_content docs)) question]\<rparr>)))"
  using assms by (simp add: run_chain_def Let_def split: option.splits sum.splits)

text \<open>Globals that are initialised hold a store.\<close>

lemma initialize_body_sets_store:
  "initialize_body env g = (None, g1) \<Longrightarrow> \<exists>store. vector_store g1 = Some store"
  by (auto simp: initialize_body_def split: option.splits sum.splits if_splits)

lemma initialised_store_is_set:
  assumes "(if vector_store g = None then initialize_rag env g else (None, g)) = (None, g1)"
  shows "\<exists>store. vector_store g1 = Some store"
proof (cases "vector_store g")
  case None
  with assms have "initialize_rag env g = (None, g1)"
    by simp
  then have "initialize_body env g = (None, g1)"
    by (auto simp: initialize_rag_def split: prod.splits option.splits)
  then show ?thesis
    by (rule initialize_body_sets_store)
next
  case (Some store)
  with assms show ?thesis
    by auto
qed

text \<open>
  C1 (amended). For every question, when the globals are initialised (before the call, or
  by the call without an exception), the console accepts the three progress lines
  ("Question: ...", "Retrieving documents...", "Generating answer...") and the search
  over the store that the globals hold returns zero results, the answering operation has no answer of
  its own for the empty context. With the prompt template and the model set, it formats
  the prompt with the empty context, invokes the generation backend exactly once with
  that prompt and returns the backend's reply with an empty source list; if the backend
  raises, the handler of the chain takes the exception. With the template or the model
  unset (an earlier initialisation raised after the store was opened), nothing is
  invoked and the handler of the chain takes the \<open>AttributeError\<close>. The handler returns
  "Error: " with the exception's message and an empty source list, unless its own
  \<open>print\<close> raises.
\<close>

theorem zero_results_still_invoke_backend:
  assumes "(if vector_store g = None then initialize_rag env g else (None, g)) = (None, g1)"
    and "vector_store g1 = Some store"
    and "console_print env (ustr ''Question: '' @ question) = None"
    and "console_print env (ustr ''Retrieving documents...'') = None"
    and "console_print env (ustr ''Generating answer...'') = None"
    and "similarity_search env store question 4 = Inr []"
  shows "get_answer env g question =
           (case PROMPT g1 of
              None \<Rightarrow> chain_handler env (none_has_no_attribute ''format'') g1
            | Some prompt \<Rightarrow>
                (case llm g1 of
                   None \<Rightarrow> chain_handler env (none_has_no_attribute ''invoke'') g1
                 | Some model \<Rightarrow>
                     (case llm_invoke env model (prompt_format prompt [] question) of
                        Inr reply \<Rightarrow>
                          (Inr \<lparr>result = reply, source_documents = []\<rparr>,
                           g1\<lparr>invocations := invocations g1 @ [prompt_format prompt [] question]\<rparr>)
                      | Inl e \<Rightarrow>
                          chain_handler env e
                            (g1\<lparr>invocations := invocations g1 @ [prompt_format prompt [] question]\<rparr>))))"
  using run_chain_retrieved [OF assms(4) assms(5) assms(2) assms(6)]
  by (simp add: get_answer_chain [OF assms(1) assms(3)] split: option.splits sum.splits)

lemma empty_index_env_sel [simp]:
  "console_print empty_index_env = (\<lambda>line. None)"
  "import_langchain empty_index_env = None"
  "getenv_google_api_key empty_index_env = Some ''test-key''"
  "new_embeddings empty_index_env = (\<lambda>name. Inr (HuggingFaceEmbeddings name))"
  "new_chroma empty_index_env = (\<lambda>dir emb. Inr (Chroma dir emb))"
  "new_chat_model empty_index_env = (\<lambda>name. Inr (ChatGoogleGenerativeAI name))"
  "similarity_search empty_index_env = (\<lambda>store query k. Inr [])"
  "llm_invoke empty_index_env = (\<lambda>model prompt. Inr (ustr ''Check the oil level with the dipstick.''))"
  by (simp_all add: empty_index_env_def)

lemma failing_backend_env_sel [simp]:
  "console_print failing_backend_env = (\<lambda>line. None)"
  "import_langchain failing_backend_env = None"
  "getenv_google_api_key failing_backend_env = Some ''test-key''"
  "new_embeddings failing_backend_env = (\<lambda>name. Inr (HuggingFaceEmbeddings name))"
  "new_chroma failing_backend_env = (\<lambda>dir emb. Inr (Chroma dir emb))"
  "new_chat_model failing_backend_env = (\<lambda>name. Inr (ChatGoogleGenerativeAI name))"
  "similarity_search failing_backend_env = (\<lambda>store query k. Inr [oil_chunk])"
  "llm_invoke failing_backend_env = (\<lambda>model prompt. Inl (PyException RuntimeError (ustr ''quota exceeded'')))"
  by (simp_all add: failing_backend_env_def empty_index_env_def)

lemma ascii_console_env_sel [simp]:
  "console_print ascii_console_env =
     (\<lambda>line. if list_ex (\<lambda>c. 127 < c) line
              then Some (PyException UnicodeEncodeError (ustr ''ordinal not in range(128)''))
              else None)"
  "import_langchain ascii_console_env = None"
  "getenv_google_api_key ascii_console_env = Some ''test-key''"
  "new_embeddings ascii_console_env = (\<lambda>name. Inr (HuggingFaceEmbeddings name))"
  "new_chroma ascii_console_env = (\<lambda>dir emb. Inr (Chroma dir emb))"
  "new_chat_model ascii_console_env = (\<lambda>name. Inr (ChatGoogleGenerativeAI name))"
  "similarity_search ascii_console_env = (\<lambda>store query k. Inr [])"
  "llm_invoke ascii_console_env = (\<lambda>model prompt. Inr (ustr ''Check the oil level with the dipstick.''))"
  by (simp_all add: ascii_console_env_def empty_index_env_def)

lemma no_globals_sel [simp]:
  "vector_store no_globals = None"
  "invocations no_globals = []"
  by (simp_all add: no_globals_def)

lemma ready_globals_sel:
  "vector_store ready_globals =
     Some (Chroma ''./chroma_db'' (HuggingFaceEmbeddings ''sentence-transformers/all-mpnet-base-v2''))"
  "llm ready_globals = Some (ChatGoogleGenerativeAI ''gemini-2.5-flash-lite'')"
  "PROMPT ready_globals = Some (PromptTemplate template)"
  "invocations ready_globals = []"
  by (simp_all add: ready_globals_def)

lemma half_initialised_sel:
  "vector_store half_initialised =
     Some (Chroma ''./chroma_db'' (HuggingFaceEmbeddings ''sentence-transformers/all-mpnet-base-v2''))"
  "llm half_initialised = None"
  "PROMPT half_initialised = None"
  "invocations half_initialised = []"
  by (simp_all add: half_initialised_def)

lemma ascii_lines:
  "\<not> list_ex (\<lambda>c. 127 < c) (ustr ''Initializing RAG pipeline (Manual Mode)...'')"
  "\<not> list_ex (\<lambda>c. 127 < c) (ustr ''Loading embeddings...'')"
  "\<not> list_ex (\<lambda>c. 127 < c) (ustr ''Loading Vector DB...'')"
  "\<not> list_ex (\<lambda>c. 127 < c) (ustr ''Loading LLM...'')"
  "\<not> list_ex (\<lambda>c. 127 < c) (ustr ''RAG pipeline initialized successfully.'')"
  by (simp_all add: ustr_def)

lemma initialize_doubles:
  "initialize_rag empty_index_env no_globals = (None, ready_globals)"
  "initialize_rag failing_backend_env no_globals = (None, ready_globals)"
  "initialize_rag ascii_console_env no_globals = (None, ready_globals)"
  by (simp_all add: initialize_rag_def initialize_body_def ascii_lines,
      simp_all add: no_globals_def ready_globals_def)

text \<open>
  The half-initialised globals are reached by a first call in which the construction of
  the model raises: the call returns the "System Error" dictionary and leaves the store
  set, so that the next call does not initialise again.
\<close>

lemma half_initialised_reached:
  "get_answer (empty_index_env\<lparr>new_chat_model := (\<lambda>name. Inl (PyException ValueError (ustr ''invalid API key'')))\<rparr>)
     no_globals oil_question =
     (Inr \<lparr>result = ustr ''System Error: Failed to initialize RAG pipeline. '' @ ustr ''invalid API key'',
           source_documents = []\<rparr>,
      half_initialised)"
  by (simp add: get_answer_def initialize_rag_def initialize_body_def empty_index_env_def,
      simp add: no_globals_def half_initialised_def)

text \<open>
  C1, witness: a first call over an empty index, where the backend is invoked once with
  the prompt for the empty context and its sentence is returned; and a call on the
  half-initialised globals, where nothing is invoked and the text is the error of the
  unset template.
\<close>

theorem zero_results_still_invoke_backend_witness:
  "similarity_search empty_index_env
     (Chroma ''./chroma_db'' (HuggingFaceEmbeddings ''sentence-transformers/all-mpnet-base-v2''))
     oil_question 4 = Inr [] \<and>
   get_answer empty_index_env no_globals oil_question =
     (Inr \<lparr>result = ustr ''Check the oil level with the dipstick.'', source_documents = []\<rparr>,
      ready_globals\<lparr>invocations := [prompt_format (PromptTemplate template) [] oil_question]\<rparr>) \<and>
   get_answer empty_index_env half_initialised oil_question =
     (Inr \<lparr>result = ustr ''Error: '' @ str_of (none_has_no_attribute ''format''), source_documents = []\<rparr>,
      half_initialised)"
proof -
  have i: "(if vector_store no_globals = None then initialize_rag empty_index_env no_globals
            else (None, no_globals)) = (None, ready_globals)"
    by (simp add: initialize_doubles)
  have j: "(if vector_store half_initialised = None then initialize_rag empty_index_env half_initialised
            else (None, half_initialised)) = (None, half_initialised)"
    by (simp add: half_initialised_sel)
  have p: "console_print empty_index_env (ustr ''Question: '' @ oil_question) = None"
    "console_print empty_index_env (ustr ''Retrieving documents...'') = None"
    "console_print empty_index_env (ustr ''Generating answer...'') = None"
    by simp_all
  have s: "similarity_search empty_index_env
     (Chroma ''./chroma_db'' (HuggingFaceEmbeddings ''sentence-transformers/all-mpnet-base-v2''))
     oil_question 4 = Inr []"
    by simp
  from zero_results_still_invoke_backend [OF i ready_globals_sel(1) p s]
  have a: "get_answer empty_index_env no_globals oil_question =
     (Inr \<lparr>result = ustr ''Check the oil level with the dipstick.'', source_documents = []\<rparr>,
      ready_globals\<lparr>invocations := [prompt_format (PromptTemplate template) [] oil_question]\<rparr>)"
    by (simp add: ready_globals_sel)
  from zero_results_still_invoke_backend [OF j half_initialised_sel(1) p s]
  have b: "get_answer empty_index_env half_initialised oil_question =
     (Inr \<lparr>result = ustr ''Error: '' @ str_of (none_has_no_attribute ''format''), source_documents = []\<rparr>,
      half_initialised)"
    by (simp add: half_initialised_sel chain_handler_def)
  from s a b show ?thesis
    by (simp only: simp_thms)
qed

text \<open>
  C1 as stated fails: with an empty index the answering operation still invokes the
  generation backend (one prompt is recorded) and returns the backend's sentence, which
  is no statement that no context was found.
\<close>

theorem zero_results_counterexample:
  "similarity_search empty_index_env
     (Chroma ''./chroma_db'' (HuggingFaceEmbeddings ''sentence-transformers/all-mpnet-base-v2''))
     oil_question 4 = Inr [] \<and>
   fst (get_answer empty_index_env no_globals oil_question) =
     Inr \<lparr>result = ustr ''Check the oil level with the dipstick.'', source_documents = []\<rparr> \<and>
   invocations (snd (get_answer empty_index_env no_globals oil_question)) =
     [prompt_format (PromptTemplate template) [] oil_question] \<and>
   invocations no_globals = []"
  by (simp add: get_answer_def initialize_doubles run_chain_def ready_globals_sel Let_def)

text \<open>
  Apart from what the console does, no exception reaches the caller. When every \<open>print\<close>
  returns, \<open>get_answer\<close> returns a result dictionary for every question, every state of
  the globals and every behaviour of the other collaborators: "System Error: Failed to
  initialize RAG pipeline." with the message when initialisation raises (a missing API
  key among the causes), "Error:" with the message when the retrieval raises, when the
  generation backend raises after the retrieval returned documents, or when anything
  else in the chain raises; in each of these the source list is empty.
\<close>

lemma get_answer_returns_when_console_prints:
  assumes "\<forall>line. console_print env line = None"
  shows "(\<exists>a. fst (get_answer env g question) = Inr a) \<and>
   (\<forall>e g1. vector_store g = None \<and> initialize_rag env g = (Some e, g1) \<longrightarrow>
      fst (get_answer env g question) =
        Inr \<lparr>result = ustr ''System Error: Failed to initialize RAG pipeline. '' @ str_of e,
             source_documents = []\<rparr>) \<and>
   (vector_store g = None \<and> import_langchain env = None \<and> getenv_google_api_key env = None \<longrightarrow>
      fst (get_answer env g question) =
        Inr \<lparr>result = ustr ''System Error: Failed to initialize RAG pipeline. '' @
                       ustr ''GOOGLE_API_KEY environment variable is not set. Please create a .env file or set the variable.'',
             source_documents = []\<rparr>) \<and>
   (\<forall>g1 store e.
      (if vector_store g = None then initialize_rag env g else (None, g)) = (None, g1) \<and>
      vector_store g1 = Some store \<and> similarity_search env store question 4 = Inl e \<longrightarrow>
      get_answer env g question =
        (Inr \<lparr>result = ustr ''Error: '' @ str_of e, source_documents = []\<rparr>, g1)) \<and>
   (\<forall>g1 store docs prompt model e.
      (if vector_store g = None then initialize_rag env g else (None, g)) = (None, g1) \<and>
      vector_store g1 = Some store \<and> similarity_search env store question 4 = Inr docs \<and>
      PROMPT g1 = Some prompt \<and> llm g1 = Some model \<and>
      llm_invoke env model (prompt_format prompt (str_join [10, 10] (map page_content docs)) question) = Inl e \<longrightarrow>
      fst (get_answer env g question) =
        Inr \<lparr>result = ustr ''Error: '' @ str_of e, source_documents = []\<rparr>) \<and>
   (\<forall>g1 e g2. (if vector_store g = None then initialize_rag env g else (None, g)) = (None, g1) \<and>
      run_chain env g1 question = (Inl e, g2) \<longrightarrow>
      fst (get_answer env g question) =
        Inr \<lparr>result = ustr ''Error: '' @ str_of e, source_documents = []\<rparr>)"
proof -
  from assms have p: "\<And>line. console_print env line = None"
    by simp
  have total: "\<exists>a. fst (get_answer env g question) = Inr a"
    by (auto simp: get_answer_def chain_handler_def p split: prod.splits option.splits sum.splits)
  have init: "\<forall>e g1. vector_store g = None \<and> initialize_rag env g = (Some e, g1) \<longrightarrow>
      fst (get_answer env g question) =
        Inr \<lparr>result = ustr ''System Error: Failed to initialize RAG pipeline. '' @ str_of e,
             source_documents = []\<rparr>"
    by (simp add: get_answer_init_fails)
  have key: "vector_store g = None \<and> import_langchain env = None \<and> getenv_google_api_key env = None \<longrightarrow>
      fst (get_answer env g question) =
        Inr \<lparr>result = ustr ''System Error: Failed to initialize RAG pipeline. '' @
                       ustr ''GOOGLE_API_KEY environment variable is not set. Please create a .env file or set the variable.'',
             source_documents = []\<rparr>"
    by (simp add: get_answer_def initialize_rag_def initialize_body_def p)
  have retrieval: "\<forall>g1 store e.
      (if vector_store g = None then initialize_rag env g else (None, g)) = (None, g1) \<and>
      vector_store g1 = Some store \<and> similarity_search env store question 4 = Inl e \<longrightarrow>
      get_answer env g question =
        (Inr \<lparr>result = ustr ''Error: '' @ str_of e, source_documents = []\<rparr>, g1)"
    by (auto simp: get_answer_chain run_chain_retrieval_fails chain_handler_def p)
  have gen: "\<forall>g1 store docs prompt model e.
      (if vector_store g = None then initialize_rag env g else (None, g)) = (None, g1) \<and>
      vector_store g1 = Some store \<and> similarity_search env store question 4 = Inr docs \<and>
      PROMPT g1 = Some prompt \<and> llm g1 = Some model \<and>
      llm_invoke env model (prompt_format prompt (str_join [10, 10] (map page_content docs)) question) = Inl e \<longrightarrow>
      fst (get_answer env g question) =
        Inr \<lparr>result = ustr ''Error: '' @ str_of e, source_documents = []\<rparr>"
    by (auto simp: get_answer_chain run_chain_retrieved chain_handler_def p)
  have chain: "\<forall>g1 e g2. (if vector_store g = None then initialize_rag env g else (None, g)) = (None, g1) \<and>
      run_chain env g1 question = (Inl e, g2) \<longrightarrow>
      fst (get_answer env g question) =
        Inr \<lparr>result = ustr ''Error: '' @ str_of e, source_documents = []\<rparr>"
    by (simp add: get_answer_chain chain_handler_def p)
  from total init key retrieval gen chain show ?thesis
    by blast
qed

text \<open>
  C10. The claim fails on the code at a question that the console cannot encode: the
  question "How do I clean my [bicycle emoji]?" with a stdout whose encoding is ASCII.
  The \<open>print\<close> of the question at line 70 lies outside both \<open>try\<close> blocks; it raises
  \<open>UnicodeEncodeError\<close>, which reaches the caller of \<open>get_answer\<close> after the
  initialisation has completed, and no result dictionary is returned. With a console that
  accepts the line, the same call returns a dictionary.
\<close>

theorem unprintable_question_raises:
  "console_print ascii_console_env (ustr ''Question: '' @ bicycle_question) =
     Some (PyException UnicodeEncodeError (ustr ''ordinal not in range(128)'')) \<and>
   get_answer ascii_console_env no_globals bicycle_question =
     (Inl (PyException UnicodeEncodeError (ustr ''ordinal not in range(128)'')), ready_globals) \<and>
   get_answer empty_index_env no_globals bicycle_question =
     (Inr \<lparr>result = ustr ''Check the oil level with the dipstick.'', source_documents = []\<rparr>,
      ready_globals\<lparr>invocations := [prompt_format (PromptTemplate template) [] bicycle_question]\<rparr>)"
proof -
  have q: "console_print ascii_console_env (ustr ''Question: '' @ bicycle_question) =
     Some (PyException UnicodeEncodeError (ustr ''ordinal not in range(128)''))"
    by (simp add: bicycle_question_def)
  have i: "(if vector_store no_globals = None then initialize_rag ascii_console_env no_globals
            else (None, no_globals)) = (None, ready_globals)"
    by (simp add: initialize_doubles)
  have a: "get_answer ascii_console_env no_globals bicycle_question =
     (Inl (PyException UnicodeEncodeError (ustr ''ordinal not in range(128)'')), ready_globals)"
    using i q by (rule get_answer_question_not_printed)
  have b: "get_answer empty_index_env no_globals bicycle_question =
     (Inr \<lparr>result = ustr ''Check the oil level with the dipstick.'', source_documents = []\<rparr>,
      ready_globals\<lparr>invocations := [prompt_format (PromptTemplate template) [] bicycle_question]\<rparr>)"
    by (simp add: get_answer_def initialize_doubles run_chain_def ready_globals_sel Let_def)
  from q a b show ?thesis
    by (simp only: simp_thms)
qed

end
